theory Spec2Isabelle
  imports Main "HOL-Library.Sublist"
begin

section \<open>Data model of \<^verbatim>\<open>src/lib/llm.ts\<close>\<close>

text \<open>
  JavaScript strings are modelled as \<^typ>\<open>string\<close>, one \<^typ>\<open>char\<close> per code unit below 256.
  A value that may be \<^verbatim>\<open>null\<close> or \<^verbatim>\<open>undefined\<close> is an \<^typ>\<open>'a option\<close>.
\<close>

datatype Role = System | User | Assistant

record Message =
  role :: Role
  content :: string

text \<open>\<^verbatim>\<open>webllm.CompletionUsage\<close>: opaque to the orchestration, only passed on.\<close>

record CompletionUsage =
  prompt_tokens :: nat
  completion_tokens :: nat
  total_tokens :: nat

text \<open>
  One chunk of the async iterator returned by \<^verbatim>\<open>engine.chat.completions.create\<close>:
  \<^verbatim>\<open>chunk.choices[0]?.delta.content\<close> and \<^verbatim>\<open>chunk.usage\<close>.
\<close>

record chunk =
  delta :: "string option"
  usage :: "CompletionUsage option"

text \<open>
  What the engine does in answer to one \<^verbatim>\<open>create\<close> call, as far as
  \<^verbatim>\<open>streamResponse\<close> can see it: the chunks the iterator yields; the exception, if any,
  thrown by \<^verbatim>\<open>create\<close> or by the iterator after those chunks; and what
  \<^verbatim>\<open>engine.getMessage()\<close> then returns (\<open>Inr\<close>) or throws (\<open>Inl\<close>).
\<close>

record completion =
  chunks :: "chunk list"
  thrown :: "string option"
  getMessage :: "string + string"

text \<open>The module variable \<^verbatim>\<open>engine: webllm.MLCEngine | null\<close>, acting on a state \<open>'s\<close>.\<close>

type_synonym 's MLCEngine = "Message list \<Rightarrow> 's \<Rightarrow> completion \<times> 's"

section \<open>The Completion Streamer: \<^verbatim>\<open>streamResponse\<close>\<close>

text \<open>
  The body of the \<^verbatim>\<open>for await\<close> loop (lines 125-132): \<^verbatim>\<open>if (delta) currentMessage += delta\<close>
  (an empty string is falsy), \<^verbatim>\<open>if (chunk.usage) usage = chunk.usage\<close>, then
  \<^verbatim>\<open>onUpdate(currentMessage)\<close>.
\<close>

fun for_await ::
  "(string \<Rightarrow> 's \<Rightarrow> 's) \<Rightarrow> chunk list \<Rightarrow> string \<Rightarrow> CompletionUsage option \<Rightarrow> 's
    \<Rightarrow> string \<times> CompletionUsage option \<times> 's"
where
  "for_await onUpdate [] currentMessage usage_seen s = (currentMessage, usage_seen, s)"
| "for_await onUpdate (c # cs) currentMessage usage_seen s =
     (let currentMessage' =
            (case delta c of
               Some d \<Rightarrow> if d \<noteq> [] then currentMessage @ d else currentMessage
             | None \<Rightarrow> currentMessage);
          usage_seen' = (case usage c of Some u \<Rightarrow> Some u | None \<Rightarrow> usage_seen)
      in for_await onUpdate cs currentMessage' usage_seen' (onUpdate currentMessage' s))"

text \<open>
  \<^verbatim>\<open>streamResponse\<close> (lines 103-143). \<^verbatim>\<open>onFinish\<close> and \<^verbatim>\<open>onError\<close> are the last thing it
  does, so they give the result; the callers pass an \<^verbatim>\<open>async\<close> \<^verbatim>\<open>onFinish\<close> whose promise is
  not awaited here, and the model runs that chain to its end. Callbacks are taken not to throw.
\<close>

definition streamResponse ::
  "'s MLCEngine option \<Rightarrow> Message list \<Rightarrow> (string \<Rightarrow> 's \<Rightarrow> 's)
    \<Rightarrow> (string \<Rightarrow> CompletionUsage \<Rightarrow> 's \<Rightarrow> 'r) \<Rightarrow> (string \<Rightarrow> 's \<Rightarrow> 'r) \<Rightarrow> 's \<Rightarrow> 'r"
where
  "streamResponse engine msgs onUpdate onFinish onError s =
     (case engine of
        None \<Rightarrow> onError ''Engine not initialized'' s
      | Some create \<Rightarrow>
          (case create msgs s of
             (c, s0) \<Rightarrow>
               (case for_await onUpdate (chunks c) [] None s0 of
                  (currentMessage, usage_seen, s1) \<Rightarrow>
                    (case thrown c of
                       Some err \<Rightarrow> onError err s1
                     | None \<Rightarrow>
                         (case getMessage c of
                            Inl err \<Rightarrow> onError err s1
                          | Inr finalMessage \<Rightarrow>
                              (case usage_seen of
                                 Some u \<Rightarrow> onFinish finalMessage u s1
                               | None \<Rightarrow> onError ''Usage data not available'' s1))))))"

text \<open>
  One call of \<^verbatim>\<open>streamResponse\<close> observed from outside: the state is the list of calls made so
  far, every callback appends its own invocation, and the engine appends the \<^verbatim>\<open>create\<close> request
  it receives.
\<close>

datatype call =
    Create "Message list"
  | OnUpdate string
  | OnFinish string CompletionUsage
  | OnError string

definition recording_engine :: "(Message list \<Rightarrow> completion) \<Rightarrow> call list MLCEngine" where
  "recording_engine respond msgs calls = (respond msgs, calls @ [Create msgs])"

definition streamResponse_calls ::
  "(Message list \<Rightarrow> completion) option \<Rightarrow> Message list \<Rightarrow> call list"
where
  "streamResponse_calls engine msgs =
     streamResponse (map_option recording_engine engine) msgs
       (\<lambda>m calls. calls @ [OnUpdate m])
       (\<lambda>m u calls. calls @ [OnFinish m u])
       (\<lambda>e calls. calls @ [OnError e])
       []"

text \<open>The texts handed to \<^verbatim>\<open>onUpdate\<close>, the \<^verbatim>\<open>onFinish\<close> and the \<^verbatim>\<open>onError\<close> invocations of a run.\<close>

fun updates :: "call list \<Rightarrow> string list" where
  "updates [] = []"
| "updates (OnUpdate m # cs) = m # updates cs"
| "updates (_ # cs) = updates cs"

fun is_OnFinish :: "call \<Rightarrow> bool" where
  "is_OnFinish (OnFinish _ _) = True"
| "is_OnFinish _ = False"

fun is_OnError :: "call \<Rightarrow> bool" where
  "is_OnError (OnError _) = True"
| "is_OnError _ = False"

text \<open>The text of a chunk's delta (nothing when it is absent), and the running totals.\<close>

definition delta_text :: "chunk \<Rightarrow> string" where
  "delta_text c = (case delta c of Some d \<Rightarrow> d | None \<Rightarrow> [])"

fun running :: "string \<Rightarrow> chunk list \<Rightarrow> string list" where
  "running acc [] = []"
| "running acc (c # cs) = (acc @ delta_text c) # running (acc @ delta_text c) cs"

fun last_usage :: "CompletionUsage option \<Rightarrow> chunk list \<Rightarrow> CompletionUsage option" where
  "last_usage u [] = u"
| "last_usage u (c # cs) = last_usage (case usage c of Some v \<Rightarrow> Some v | None \<Rightarrow> u) cs"

text \<open>
  The module variable \<^verbatim>\<open>engine\<close> starts as \<^verbatim>\<open>null\<close> (line 9) and is written only by
  \<^verbatim>\<open>initializeWebLLMEngine\<close> (lines 66-89). An engine object is modelled by how it answers
  \<^verbatim>\<open>create\<close>. In \<^verbatim>\<open>initializeWebLLMEngine\<close>, \<open>fresh\<close> is the object \<^verbatim>\<open>new webllm.MLCEngine()\<close> gives
  and \<open>reload\<close> is what \<^verbatim>\<open>engine.reload(selectedModel, config)\<close> does to it: the exception it
  throws, if any, and the object as it leaves it. The result records the value of \<^verbatim>\<open>engine\<close>
  while \<^verbatim>\<open>reload\<close> is awaited (the assignment of line 73 comes first), its value once the
  function has ended, whether \<^verbatim>\<open>onCompletion\<close> was called (line 84, only after a successful
  \<^verbatim>\<open>reload\<close>), and the exception rethrown (line 87).
\<close>

type_synonym engine_object = "Message list \<Rightarrow> completion"

record initialization =
  engine_pending :: "engine_object option"
  engine_settled :: "engine_object option"
  onCompletion_called :: bool
  rethrown :: "string option"

definition initializeWebLLMEngine ::
  "engine_object \<Rightarrow> (engine_object \<Rightarrow> string option \<times> engine_object) \<Rightarrow> initialization"
where
  "initializeWebLLMEngine fresh reload =
     (case reload fresh of
        (failure, e) \<Rightarrow>
          \<lparr>engine_pending = Some fresh,
           engine_settled = Some e,
           onCompletion_called = (failure = None),
           rethrown = failure\<rparr>)"

section \<open>Stub engines used to run the definitions\<close>

definition usage0 :: CompletionUsage where
  "usage0 = \<lparr>prompt_tokens = 12, completion_tokens = 5, total_tokens = 17\<rparr>"

text \<open>Two text chunks and no usage summary.\<close>

definition stream_without_usage :: "Message list \<Rightarrow> completion" where
  "stream_without_usage msgs =
     \<lparr>chunks = [\<lparr>delta = Some ''The answer'', usage = None\<rparr>,
                \<lparr>delta = Some '' is 4.'', usage = None\<rparr>],
      thrown = None, getMessage = Inr ''The answer is 4.''\<rparr>"

text \<open>A text chunk followed by the usage chunk, which carries no text.\<close>

definition stream_with_usage :: "Message list \<Rightarrow> completion" where
  "stream_with_usage msgs =
     \<lparr>chunks = [\<lparr>delta = Some ''a'', usage = None\<rparr>, \<lparr>delta = None, usage = Some usage0\<rparr>],
      thrown = None, getMessage = Inr ''a''\<rparr>"

text \<open>An engine whose \<^verbatim>\<open>getMessage()\<close> is not the concatenation of the deltas it streamed.\<close>

definition stream_final_differs :: "Message list \<Rightarrow> completion" where
  "stream_final_differs msgs =
     \<lparr>chunks = [\<lparr>delta = Some ''ab'', usage = Some usage0\<rparr>],
      thrown = None, getMessage = Inr ''abc''\<rparr>"

text \<open>An engine without a model, which refuses every request, and a \<^verbatim>\<open>reload\<close> that fails.\<close>

definition unloaded_engine :: engine_object where
  "unloaded_engine msgs =
     \<lparr>chunks = [], thrown = Some ''Model not loaded'', getMessage = Inl ''Model not loaded''\<rparr>"

definition failing_reload :: "engine_object \<Rightarrow> string option \<times> engine_object" where
  "failing_reload e = (Some ''Failed to fetch'', e)"

section \<open>The orchestration of \<^verbatim>\<open>src/lib/llm.ts\<close>\<close>

subsection \<open>Prompts (\<^verbatim>\<open>src/lib/prompts.ts\<close>)\<close>

definition SYSTEM_PROMPT :: string where
  "SYSTEM_PROMPT = concat
     [''You are a Python coding assistant with access to a Python REPL environment. '',
      ''You can write and execute code iteratively to solve problems.\<newline>'',
      ''\<newline>'',
      ''When solving problems:\<newline>'',
      ''1. You can write multiple code blocks\<newline>'',
      ''2. Each code block will be executed in the same session, preserving variables and state\<newline>'',
      ''3. You can inspect results and write additional code based on previous outputs\<newline>'',
      ''4. Use print() statements to inspect variables and state\<newline>'',
      ''\<newline>'',
      ''Important package installation rules:\<newline>'',
      ''1. Install packages using: await micropip.install('package-name')\<newline>'',
      ''2. Always use try-except for package installations\<newline>'',
      ''3. Only install required packages\<newline>'',
      ''4. Handle package installation failures gracefully\<newline>'',
      ''\<newline>'',
      ''Format your responses as markdown code blocks with ```python and ```.\<newline>'',
      ''You can write multiple blocks to iteratively solve the problem.'']"

definition EXPLANATION_PROMPT :: "string \<Rightarrow> string \<Rightarrow> string" where
  "EXPLANATION_PROMPT result_text stdout_text = concat
     [''Awesome! I ran your code that helped me answer my question. It returned '', result_text,
      '' and the printed output: '', stdout_text, ''.\<newline>'',
      ''Now respond to my original question using the result and the printed output, '',
      ''ignoring any message before this one.'']"

subsection \<open>Callbacks, sandbox results and the state of a turn\<close>

record 's StreamingCallbacks =
  onResultUpdate :: "string \<Rightarrow> 's \<Rightarrow> 's"
  onCodeOutputUpdate :: "string option \<Rightarrow> 's \<Rightarrow> 's"
  onExplanationUpdate :: "string option \<Rightarrow> 's \<Rightarrow> 's"
  onErrorUpdate :: "bool \<Rightarrow> 's \<Rightarrow> 's"
  onUsageUpdate :: "CompletionUsage \<Rightarrow> 's \<Rightarrow> 's"

text \<open>
  \<^verbatim>\<open>PyodideResult\<close> is declared in \<^verbatim>\<open>app/hooks/usePyodide\<close>, which is not among the sources; its
  shape is the one \<^verbatim>\<open>runAndExplainCode\<close> destructures: \<^verbatim>\<open>{ results, error }\<close> with
  \<^verbatim>\<open>results = { stdout, result }\<close>, every field possibly \<^verbatim>\<open>null\<close> or absent.
\<close>

record ExecutionResult =
  stdout :: "string option"
  result :: "string option"

record PyodideResult =
  results :: "ExecutionResult option"
  error :: "string option"

text \<open>
  The collaborators of a turn. \<open>'w\<close> is whatever state the engine and the sandbox keep between
  calls (both are stateful: sampling, the Python session). \<^verbatim>\<open>executePython\<close> returns its result
  (\<open>Inr\<close>) or rejects with a message (\<open>Inl\<close>). \<^verbatim>\<open>extractCodeFromMarkdown\<close> lives in
  \<^verbatim>\<open>lib/markdownParser\<close>, which is not among the sources: it is a parameter.
\<close>

record 'w env =
  engine :: "(Message list \<Rightarrow> 'w \<Rightarrow> completion \<times> 'w) option"
  executePython :: "string \<Rightarrow> 'w \<Rightarrow> (string + PyodideResult) \<times> 'w"
  extractCodeFromMarkdown :: "string \<Rightarrow> string option"

text \<open>
  What a turn can be observed to do, in order: the callbacks it invokes, the conversations it
  sends to the engine and the code it sends to the sandbox.
\<close>

datatype event =
    ResultUpdate string
  | CodeOutputUpdate "string option"
  | ExplanationUpdate "string option"
  | ErrorUpdate bool
  | UsageUpdate CompletionUsage
  | EngineCreate "Message list"
  | Execute string

text \<open>The state of a turn: the collaborators' state, the \<^verbatim>\<open>messages\<close> array and the events so far.\<close>

record 'w state =
  world :: 'w
  messages :: "Message list"
  trace :: "event list"

text \<open>A turn either comes to its end, or is still running when the fuel is used up.\<close>

datatype 's outcome = Finished 's | OutOfFuel 's

fun state_of :: "'s outcome \<Rightarrow> 's" where
  "state_of (Finished s) = s"
| "state_of (OutOfFuel s) = s"

fun finished :: "'s outcome \<Rightarrow> bool" where
  "finished (Finished s) = True"
| "finished (OutOfFuel s) = False"

definition emit :: "event \<Rightarrow> 'w state \<Rightarrow> 'w state" where
  "emit e s = s\<lparr>trace := trace s @ [e]\<rparr>"

text \<open>The callbacks that record their own invocation.\<close>

definition recorder :: "'w state StreamingCallbacks" where
  "recorder =
     \<lparr>onResultUpdate = (\<lambda>r. emit (ResultUpdate r)),
      onCodeOutputUpdate = (\<lambda>out. emit (CodeOutputUpdate out)),
      onExplanationUpdate = (\<lambda>ex. emit (ExplanationUpdate ex)),
      onErrorUpdate = (\<lambda>b. emit (ErrorUpdate b)),
      onUsageUpdate = (\<lambda>u. emit (UsageUpdate u))\<rparr>"

text \<open>The engine and the sandbox of \<open>env\<close> acting on the state of the turn.\<close>

definition engine_on :: "'w env \<Rightarrow> 'w state MLCEngine option" where
  "engine_on env =
     map_option
       (\<lambda>create msgs s.
          case create msgs (world s) of
            (c, w') \<Rightarrow> (c, s\<lparr>world := w', trace := trace s @ [EngineCreate msgs]\<rparr>))
       (engine env)"

definition run_sandbox :: "'w env \<Rightarrow> string \<Rightarrow> 'w state \<Rightarrow> (string + PyodideResult) \<times> 'w state" where
  "run_sandbox env code s =
     (case executePython env code (world s) of
        (r, w') \<Rightarrow> (r, s\<lparr>world := w', trace := trace s @ [Execute code]\<rparr>))"

text \<open>\<^verbatim>\<open>messages.push(m)\<close>.\<close>

definition push :: "Message \<Rightarrow> 'w state \<Rightarrow> 'w state" where
  "push m s = s\<lparr>messages := messages s @ [m]\<rparr>"

subsection \<open>JavaScript helpers\<close>

text \<open>\<^verbatim>\<open>if (x)\<close> on a string that may be \<^verbatim>\<open>null\<close>: \<^verbatim>\<open>null\<close> and the empty string are falsy.\<close>

definition truthy :: "string option \<Rightarrow> bool" where
  "truthy v = (case v of Some x \<Rightarrow> x \<noteq> [] | None \<Rightarrow> False)"

text \<open>\<^verbatim>\<open>x != null && x !== '' && x !== 'null'\<close> (lines 203 and 204).\<close>

definition shown :: "string option \<Rightarrow> bool" where
  "shown v = (case v of Some x \<Rightarrow> x \<noteq> [] \<and> x \<noteq> ''null'' | None \<Rightarrow> False)"

text \<open>
  \<^verbatim>\<open>String.prototype.trim\<close>: the white space and line terminators of ECMAScript among the
  code units below 256 (tab, LF, VT, FF, CR, space, no-break space).
\<close>

definition is_white_space :: "char \<Rightarrow> bool" where
  "is_white_space c \<longleftrightarrow>
     c \<in> set [CHR 0x09, CHR 0x0A, CHR 0x0B, CHR 0x0C, CHR 0x0D, CHR 0x20, CHR 0xA0]"

definition trim :: "string \<Rightarrow> string" where
  "trim x = rev (dropWhile is_white_space (rev (dropWhile is_white_space x)))"

subsection \<open>\<^verbatim>\<open>handleError\<close>, \<^verbatim>\<open>runAndExplainCode\<close>, \<^verbatim>\<open>handleCodeError\<close>, \<^verbatim>\<open>handleUserInput\<close>\<close>

text \<open>Lines 31-35, with \<^verbatim>\<open>error.message\<close> as the argument; \<^verbatim>\<open>console.error\<close> is left out.\<close>

definition handleError :: "string \<Rightarrow> 's StreamingCallbacks \<Rightarrow> 's \<Rightarrow> 's" where
  "handleError message callbacks s =
     onResultUpdate callbacks (''Error: '' @ message) (onErrorUpdate callbacks True s)"

text \<open>The variable \<^verbatim>\<open>output\<close> after lines 202-204.\<close>

definition compose_output :: "ExecutionResult \<Rightarrow> string" where
  "compose_output r =
     (if shown (stdout r) then the (stdout r) @ ''\<newline>'' else []) @
     (if shown (result r) then the (result r) else [])"

text \<open>Line 45: the error report sent back to the model.\<close>

definition errorMessage :: "string \<Rightarrow> string \<Rightarrow> string" where
  "errorMessage err pythonCode =
     ''The code execution resulted in an error: '' @ err @ ''\<newline>Code:\<newline>'' @ pythonCode"

text \<open>
  \<^verbatim>\<open>runAndExplainCode\<close> (lines 188-219) and \<^verbatim>\<open>handleCodeError\<close> (lines 37-64) call each other
  with no bound of their own; the fuel counts the sandbox executions still allowed, and a run
  that needs more is \<open>OutOfFuel\<close> at the state it has reached.
\<close>

fun runAndExplainCode ::
  "nat \<Rightarrow> 'w env \<Rightarrow> string \<Rightarrow> 'w state StreamingCallbacks \<Rightarrow> 'w state \<Rightarrow> 'w state outcome"
and handleCodeError ::
  "nat \<Rightarrow> 'w env \<Rightarrow> string \<Rightarrow> string \<Rightarrow> 'w state StreamingCallbacks \<Rightarrow> 'w state
    \<Rightarrow> 'w state outcome"
where
  "runAndExplainCode 0 env pythonCode callbacks s = OutOfFuel s"
| "runAndExplainCode (Suc n) env pythonCode callbacks s =
     (case run_sandbox env pythonCode s of
        (Inl err, s1) \<Rightarrow> Finished (handleError err callbacks s1)
      | (Inr r, s1) \<Rightarrow>
          if truthy (error r) then
            handleCodeError n env (the (error r)) pythonCode callbacks
              (handleError (the (error r)) callbacks s1)
          else
            (case results r of
               Some res \<Rightarrow>
                 (let output = compose_output res;
                      s2 = (if output \<noteq> [] then onCodeOutputUpdate callbacks (Some (trim output)) s1
                            else s1)
                  in Finished
                       (push \<lparr>role = Assistant,
                              content = ''The code executed successfully with the following output: ''
                                        @ output\<rparr> s2))
             | None \<Rightarrow> Finished s1))"
| "handleCodeError n env err pythonCode callbacks s =
     (let s1 = push \<lparr>role = User, content = errorMessage err pythonCode\<rparr> s
      in streamResponse (engine_on env) (messages s1)
           (onResultUpdate callbacks)
           (\<lambda>response u s2.
              let s3 = onUsageUpdate callbacks u (onResultUpdate callbacks response s2);
                  fixedCode = extractCodeFromMarkdown env response
              in if truthy fixedCode then runAndExplainCode n env (the fixedCode) callbacks s3
                 else Finished s3)
           (\<lambda>e s2. Finished (handleError e callbacks s2))
           s1)"

text \<open>\<^verbatim>\<open>handleUserInput\<close> (lines 153-182), started on the collaborators' state \<open>w\<close>.\<close>

definition handleUserInput ::
  "nat \<Rightarrow> 'w env \<Rightarrow> string \<Rightarrow> 'w state StreamingCallbacks \<Rightarrow> 'w \<Rightarrow> 'w state outcome"
where
  "handleUserInput fuel env input callbacks w =
     (let s = \<lparr>world = w,
               messages = [\<lparr>role = System, content = SYSTEM_PROMPT\<rparr>,
                           \<lparr>role = User, content = input\<rparr>],
               trace = []\<rparr>
      in streamResponse (engine_on env) (messages s)
           (onResultUpdate callbacks)
           (\<lambda>aiResponse u s2.
              let s3 = onUsageUpdate callbacks u (onResultUpdate callbacks aiResponse s2);
                  pythonCode = extractCodeFromMarkdown env aiResponse
              in if truthy pythonCode then runAndExplainCode fuel env (the pythonCode) callbacks s3
                 else Finished s3)
           (\<lambda>e s2. Finished (handleError e callbacks s2))
           s)"

section \<open>The earlier variant with an explanation step (\<^verbatim>\<open>src/unnamed/part_001\<close>)\<close>

text \<open>
  \<^verbatim>\<open>part_001\<close> is an earlier revision of \<^verbatim>\<open>llm.ts\<close>: the same \<^verbatim>\<open>streamResponse\<close>, no recovery
  loop, and a \<^verbatim>\<open>generateExplanation\<close> step after a successful execution. Its functions carry
  the suffix \<open>_001\<close>.
\<close>

definition SYSTEM_PROMPT_001 :: string where
  "SYSTEM_PROMPT_001 = concat
     [''The user will ask you a tricky question, your job is to write Python code to answer '',
      ''the question.\<newline>'',
      ''\<newline>'',
      ''Really think step by step before writing any code to ensure you're writing the correct '',
      ''code to answer the question correctly.\<newline>'',
      ''\<newline>'',
      ''Respond with a markdown code block starting with ```python and ``` at the end. '',
      ''Make sure the code can be executed without any changes.'']"

text \<open>
  A field of the sandbox result inside a template literal. An absent field is \<^verbatim>\<open>null\<close> or
  \<^verbatim>\<open>undefined\<close>; the option type does not tell the two apart, but a template literal prints
  "null" for the one and "undefined" for the other. So the functions of \<^verbatim>\<open>part_001\<close> that
  print the fields are given, besides the result, which of the two each field is when absent.
\<close>

datatype absent = Null | Undefined

record absent_fields =
  absent_stdout :: absent
  absent_result :: absent

definition js_string :: "absent \<Rightarrow> string option \<Rightarrow> string" where
  "js_string a v =
     (case v of
        Some x \<Rightarrow> x
      | None \<Rightarrow> (case a of Null \<Rightarrow> ''null'' | Undefined \<Rightarrow> ''undefined''))"

text \<open>Lines 193-197 of \<^verbatim>\<open>part_001\<close>; the prefix defaults to the empty string.\<close>

definition handleError_001 :: "string \<Rightarrow> 's StreamingCallbacks \<Rightarrow> string \<Rightarrow> 's \<Rightarrow> 's" where
  "handleError_001 message callbacks pre s =
     onResultUpdate callbacks (if pre \<noteq> [] then pre @ '': '' @ message else message)
       (onErrorUpdate callbacks True s)"

text \<open>Lines 170-191 of \<^verbatim>\<open>part_001\<close>.\<close>

definition generateExplanation ::
  "'w env \<Rightarrow> Message list \<Rightarrow> string \<Rightarrow> ExecutionResult \<Rightarrow> absent_fields
    \<Rightarrow> 'w state StreamingCallbacks \<Rightarrow> 'w state \<Rightarrow> 'w state"
where
  "generateExplanation env msgs aiResponse executionResults kinds callbacks s =
     (let explanationMessages =
            msgs @
            [\<lparr>role = Assistant, content = aiResponse\<rparr>,
             \<lparr>role = User,
              content = EXPLANATION_PROMPT
                          (js_string (absent_result kinds) (result executionResults))
                          (js_string (absent_stdout kinds) (stdout executionResults))\<rparr>]
      in streamResponse (engine_on env) explanationMessages
           (\<lambda>m. onExplanationUpdate callbacks (Some m))
           (\<lambda>explanation u s2.
              onUsageUpdate callbacks u (onExplanationUpdate callbacks (Some explanation) s2))
           (\<lambda>e. handleError_001 e callbacks ''Error generating explanation'')
           s)"

text \<open>Lines 146-164 of \<^verbatim>\<open>part_001\<close>.\<close>

definition runAndExplainCode_001 ::
  "'w env \<Rightarrow> string \<Rightarrow> absent_fields \<Rightarrow> 'w state StreamingCallbacks \<Rightarrow> 'w state
    \<Rightarrow> 'w state"
where
  "runAndExplainCode_001 env pythonCode kinds callbacks s =
     (case run_sandbox env pythonCode s of
        (Inl err, s1) \<Rightarrow> handleError_001 err callbacks [] s1
      | (Inr r, s1) \<Rightarrow>
          if truthy (error r) then handleError_001 (the (error r)) callbacks [] s1
          else
            (case results r of
               Some res \<Rightarrow>
                 generateExplanation env (messages s1)
                   (''```python\<newline>'' @ pythonCode @ ''\<newline>```'') res kinds callbacks
                   (onCodeOutputUpdate callbacks
                      (Some (''Output:\<newline>'' @ js_string (absent_stdout kinds) (stdout res) @
                             ''\<newline>Result: '' @ js_string (absent_result kinds) (result res)))
                      s1)
             | None \<Rightarrow> s1))"

text \<open>Lines 111-140 of \<^verbatim>\<open>part_001\<close>.\<close>

definition handleUserInput_001 ::
  "'w env \<Rightarrow> string \<Rightarrow> absent_fields \<Rightarrow> 'w state StreamingCallbacks \<Rightarrow> 'w \<Rightarrow> 'w state"
where
  "handleUserInput_001 env input kinds callbacks w =
     (let s = \<lparr>world = w,
               messages = [\<lparr>role = System, content = SYSTEM_PROMPT_001\<rparr>,
                           \<lparr>role = User, content = input\<rparr>],
               trace = []\<rparr>
      in streamResponse (engine_on env) (messages s)
           (onResultUpdate callbacks)
           (\<lambda>aiResponse u s2.
              let s3 = onUsageUpdate callbacks u (onResultUpdate callbacks aiResponse s2);
                  pythonCode = extractCodeFromMarkdown env aiResponse
              in if truthy pythonCode
                 then runAndExplainCode_001 env (the pythonCode) kinds callbacks s3
                 else s3)
           (\<lambda>e. handleError_001 e callbacks [])
           s)"

section \<open>Notions used to state the properties\<close>

text \<open>
  How \<^verbatim>\<open>streamResponse\<close> ends a stream (lines 134-141): with an error message (\<open>Inl\<close>), or
  with the final message and the last usage summary (\<open>Inr\<close>).
\<close>

definition stream_result :: "completion \<Rightarrow> string + string \<times> CompletionUsage" where
  "stream_result c =
     (case thrown c of
        Some err \<Rightarrow> Inl err
      | None \<Rightarrow>
          (case getMessage c of
             Inl err \<Rightarrow> Inl err
           | Inr finalMessage \<Rightarrow>
               (case last_usage None (chunks c) of
                  Some u \<Rightarrow> Inr (finalMessage, u)
                | None \<Rightarrow> Inl ''Usage data not available'')))"

text \<open>The number of sandbox executions in a trace, and the conversations sent to the engine.\<close>

fun executions :: "event list \<Rightarrow> nat" where
  "executions [] = 0"
| "executions (Execute code # tr) = Suc (executions tr)"
| "executions (_ # tr) = executions tr"

fun conversations :: "event list \<Rightarrow> Message list list" where
  "conversations [] = []"
| "conversations (EngineCreate msgs # tr) = msgs # conversations tr"
| "conversations (_ # tr) = conversations tr"

text \<open>The events on the explanation channel.\<close>

fun is_ExplanationUpdate :: "event \<Rightarrow> bool" where
  "is_ExplanationUpdate (ExplanationUpdate ex) = True"
| "is_ExplanationUpdate _ = False"

text \<open>
  A sandbox that fails on every call, and an engine every response of which completes with a
  usage summary and a final message from which code is extracted.
\<close>

definition always_fails :: "'w env \<Rightarrow> bool" where
  "always_fails env \<longleftrightarrow>
     (\<forall>code w. \<exists>r w'. executePython env code w = (Inr r, w') \<and> truthy (error r))"

definition always_code :: "'w env \<Rightarrow> bool" where
  "always_code env \<longleftrightarrow>
     (\<exists>create. engine env = Some create \<and>
        (\<forall>msgs w. \<exists>c w' m u. create msgs w = (c, w') \<and> stream_result c = Inr (m, u) \<and>
            truthy (extractCodeFromMarkdown env m)))"

text \<open>The conversation a turn starts with (lines 158-161).\<close>

definition initial_conversation :: "string \<Rightarrow> Message list" where
  "initial_conversation input =
     [\<lparr>role = System, content = SYSTEM_PROMPT\<rparr>, \<lparr>role = User, content = input\<rparr>]"

text \<open>
  The two kinds of message \<^verbatim>\<open>llm.ts\<close> appends: the assistant-role summary of a successful
  execution (lines 211-214) and the user-role error report (lines 45-46).
\<close>

definition success_summary :: "Message \<Rightarrow> bool" where
  "success_summary m \<longleftrightarrow>
     role m = Assistant \<and>
     prefix ''The code executed successfully with the following output: '' (content m)"

definition error_report :: "Message \<Rightarrow> bool" where
  "error_report m \<longleftrightarrow>
     role m = User \<and> prefix ''The code execution resulted in an error: '' (content m)"

definition appended_ok :: "Message \<Rightarrow> bool" where
  "appended_ok m \<longleftrightarrow> success_summary m \<or> error_report m"

text \<open>
  The invariant of a turn on \<open>input\<close>: the conversation starts with the system prompt and the
  question; whatever follows was appended as a success summary or an error report; every
  conversation sent to the engine starts with those two messages; and the conversations sent,
  followed by the current one, form a chain of prefixes (it only ever grew by appending).
\<close>

definition turn_inv :: "string \<Rightarrow> 'w state \<Rightarrow> bool" where
  "turn_inv input s \<longleftrightarrow>
     take 2 (messages s) = initial_conversation input \<and>
     list_all appended_ok (drop 2 (messages s)) \<and>
     list_all (prefix (initial_conversation input)) (conversations (trace s)) \<and>
     sorted_wrt prefix (conversations (trace s) @ [messages s])"

section \<open>Stub collaborators used to run the definitions\<close>

definition python_fence :: string where
  "python_fence = ''```python\<newline>print(5)\<newline>5 + 5\<newline>```''"

definition stub_extract :: "string \<Rightarrow> string option" where
  "stub_extract response =
     (if response = python_fence then Some ''print(5)\<newline>5 + 5'' else None)"

text \<open>An engine that answers every request with the same fenced block; its state counts the requests.\<close>

definition stub_engine :: "Message list \<Rightarrow> nat \<Rightarrow> completion \<times> nat" where
  "stub_engine msgs w =
     (\<lparr>chunks = [\<lparr>delta = Some python_fence, usage = None\<rparr>,
                 \<lparr>delta = None, usage = Some usage0\<rparr>],
       thrown = None, getMessage = Inr python_fence\<rparr>, Suc w)"

definition sandbox_env :: "PyodideResult \<Rightarrow> nat env" where
  "sandbox_env r =
     \<lparr>engine = Some stub_engine,
      executePython = (\<lambda>code w. (Inr r, w)),
      extractCodeFromMarkdown = stub_extract\<rparr>"

definition failing_env :: "nat env" where
  "failing_env = sandbox_env \<lparr>results = None, error = Some ''NameError: name x is not defined''\<rparr>"

definition succeeding_env :: "nat env" where
  "succeeding_env =
     sandbox_env \<lparr>results = Some \<lparr>stdout = Some ''5\<newline>'', result = Some ''10''\<rparr>, error = None\<rparr>"

definition silent_env :: "nat env" where
  "silent_env =
     sandbox_env \<lparr>results = Some \<lparr>stdout = Some '''', result = Some ''null''\<rparr>, error = None\<rparr>"

definition empty_env :: "nat env" where
  "empty_env = sandbox_env \<lparr>results = None, error = None\<rparr>"

definition state0 :: "nat state" where
  "state0 = \<lparr>world = 0, messages = initial_conversation ''What is 5 + 5?'', trace = []\<rparr>"

section \<open>Properties of the Completion Streamer\<close>

lemma for_await_eq:
  "for_await onUpdate cs acc u s =
     (acc @ concat (map delta_text cs), last_usage u cs,
      foldl (\<lambda>s m. onUpdate m s) s (running acc cs))"
  by (induction cs arbitrary: acc u s)
     (simp_all add: delta_text_def Let_def split: option.split)

lemma for_await_recording:
  "for_await (\<lambda>m calls. calls @ [OnUpdate m]) cs acc u calls =
     (acc @ concat (map delta_text cs), last_usage u cs, calls @ map OnUpdate (running acc cs))"
  by (induction cs arbitrary: acc u calls)
     (simp_all add: delta_text_def Let_def split: option.split)

lemma updates_append: "updates (xs @ ys) = updates xs @ updates ys"
  by (induction xs rule: updates.induct) simp_all

lemma updates_map_OnUpdate: "updates (map OnUpdate ms) = ms"
  by (induction ms) simp_all

lemma last_usage_None_iff: "last_usage u cs = None \<longleftrightarrow> u = None \<and> (\<forall>c \<in> set cs. usage c = None)"
  by (induction cs arbitrary: u) (auto split: option.splits)

text \<open>The calls of a run against a ready engine, in full.\<close>

lemma streamResponse_calls_Some:
  "streamResponse_calls (Some respond) msgs =
     Create msgs # map OnUpdate (running [] (chunks (respond msgs))) @
       [case thrown (respond msgs) of
          Some err \<Rightarrow> OnError err
        | None \<Rightarrow>
            (case getMessage (respond msgs) of
               Inl err \<Rightarrow> OnError err
             | Inr finalMessage \<Rightarrow>
                 (case last_usage None (chunks (respond msgs)) of
                    Some u \<Rightarrow> OnFinish finalMessage u
                  | None \<Rightarrow> OnError ''Usage data not available''))]"
  by (simp add: streamResponse_calls_def streamResponse_def recording_engine_def
      for_await_recording split: option.split sum.split)

lemma running_length: "length (running acc cs) = length cs"
  by (induction cs arbitrary: acc) simp_all

lemma running_nth:
  "i < length cs \<Longrightarrow> running acc cs ! i = acc @ concat (map delta_text (take (Suc i) cs))"
proof (induction cs arbitrary: acc i)
  case Nil
  then show ?case by simp
next
  case (Cons c cs)
  show ?case
  proof (cases i)
    case 0
    then show ?thesis by simp
  next
    case (Suc j)
    with Cons.prems have "j < length cs" by simp
    from Cons.IH [OF this, of "acc @ delta_text c"] Suc show ?thesis by simp
  qed
qed

lemma running_step:
  assumes "Suc i < length cs"
  shows "running acc cs ! Suc i = running acc cs ! i @ delta_text (cs ! Suc i)"
proof -
  from assms have i: "i < length cs" by simp
  have "take (Suc (Suc i)) cs = take (Suc i) cs @ [cs ! Suc i]"
    using assms by (simp add: take_Suc_conv_app_nth)
  then show ?thesis
    using running_nth [OF assms, of acc] running_nth [OF i, of acc] by simp
qed

lemma count_OnFinish_updates: "filter is_OnFinish (map OnUpdate ms) = []"
  by (induction ms) simp_all

text \<open>
  C4. When no chunk of the stream carries a usage summary, \<^verbatim>\<open>onFinish\<close> is never invoked and
  the run ends with \<^verbatim>\<open>onError\<close>; when moreover the stream completes (neither the iterator nor
  \<^verbatim>\<open>getMessage\<close> throws), the run is the \<^verbatim>\<open>create\<close> request, one \<^verbatim>\<open>onUpdate\<close> per chunk and
  \<^verbatim>\<open>onError\<close> with "Usage data not available". Conversely \<^verbatim>\<open>onFinish\<close> is invoked exactly when
  the stream completes and some chunk carried a usage summary.
\<close>

theorem streamResponse_usage_required:
  fixes respond :: "Message list \<Rightarrow> completion"
  defines "calls \<equiv> \<lambda>e m. streamResponse_calls (Some e) m"
  assumes no_usage: "\<forall>c \<in> set (chunks (respond msgs)). usage c = None"
  shows "filter is_OnFinish (calls respond msgs) = []
    \<and> is_OnError (last (calls respond msgs))
    \<and> (thrown (respond msgs) = None \<and> getMessage (respond msgs) = Inr m \<longrightarrow>
         calls respond msgs =
           Create msgs # map OnUpdate (running [] (chunks (respond msgs))) @
             [OnError ''Usage data not available''])
    \<and> (filter is_OnFinish (calls respond' msgs') \<noteq> [] \<longleftrightarrow>
         thrown (respond' msgs') = None \<and> (\<exists>m. getMessage (respond' msgs') = Inr m) \<and>
         (\<exists>c \<in> set (chunks (respond' msgs')). usage c \<noteq> None))"
proof -
  have none: "last_usage None (chunks (respond msgs)) = None"
    using no_usage by (simp add: last_usage_None_iff)
  have 1: "filter is_OnFinish (calls respond msgs) = []"
    unfolding calls_def streamResponse_calls_Some
    by (simp add: none count_OnFinish_updates split: option.split sum.split)
  have 2: "is_OnError (last (calls respond msgs))"
    unfolding calls_def streamResponse_calls_Some
    by (simp add: none split: option.split sum.split)
  have 3: "thrown (respond msgs) = None \<and> getMessage (respond msgs) = Inr m \<longrightarrow>
         calls respond msgs =
           Create msgs # map OnUpdate (running [] (chunks (respond msgs))) @
             [OnError ''Usage data not available'']"
    unfolding calls_def streamResponse_calls_Some by (simp add: none)
  have 4: "filter is_OnFinish (calls respond' msgs') \<noteq> [] \<longleftrightarrow>
         thrown (respond' msgs') = None \<and> (\<exists>m. getMessage (respond' msgs') = Inr m) \<and>
         (\<exists>c \<in> set (chunks (respond' msgs')). usage c \<noteq> None)"
  proof (cases "last_usage None (chunks (respond' msgs'))")
    case None
    then have "\<forall>c \<in> set (chunks (respond' msgs')). usage c = None"
      by (simp add: last_usage_None_iff)
    with None show ?thesis
      unfolding calls_def streamResponse_calls_Some
      by (simp add: count_OnFinish_updates split: option.split sum.split)
  next
    case (Some u)
    then have "\<not> (\<forall>c \<in> set (chunks (respond' msgs')). usage c = None)"
      using last_usage_None_iff [of None "chunks (respond' msgs')"] by simp
    with Some show ?thesis
      unfolding calls_def streamResponse_calls_Some
      by (auto simp: count_OnFinish_updates split: option.split sum.split)
  qed
  from 1 2 3 4 show ?thesis by blast
qed

theorem streamResponse_usage_required_witness:
  "map usage (chunks (stream_without_usage [])) = [None, None]
   \<and> streamResponse_calls (Some stream_without_usage) [] =
       [Create [], OnUpdate ''The answer'', OnUpdate ''The answer is 4.'',
        OnError ''Usage data not available'']
   \<and> filter is_OnFinish (streamResponse_calls (Some stream_without_usage) []) = []
   \<and> filter is_OnFinish (streamResponse_calls (Some stream_with_usage) []) \<noteq> []"
  using streamResponse_usage_required
    [of stream_without_usage "[]" "''The answer is 4.''" stream_with_usage "[]"]
  by (simp add: stream_without_usage_def stream_with_usage_def delta_text_def)

text \<open>
  C5 as stated fails: a chunk without text (the usage chunk) makes \<^verbatim>\<open>onUpdate\<close> receive the
  same text twice, so the second text is not a strict extension of the first.
\<close>

theorem streamResponse_updates_not_strict:
  "updates (streamResponse_calls (Some stream_with_usage) []) = [''a'', ''a'']
   \<and> \<not> strict_prefix (updates (streamResponse_calls (Some stream_with_usage) []) ! 0)
                       (updates (streamResponse_calls (Some stream_with_usage) []) ! 1)"
  by (simp add: streamResponse_calls_Some stream_with_usage_def delta_text_def usage0_def)

text \<open>
  C5, amended. \<^verbatim>\<open>onUpdate\<close> is invoked once per chunk; its \<open>i\<close>-th text is the concatenation
  of the deltas of the first \<open>i + 1\<close> chunks (the full text so far); each text is a prefix of
  the next, and a strict one exactly when the next chunk carries a non-empty delta.
\<close>

theorem streamResponse_updates_prefix:
  fixes respond :: "Message list \<Rightarrow> completion" and msgs :: "Message list"
  defines "ups \<equiv> updates (streamResponse_calls (Some respond) msgs)"
      and "cs \<equiv> chunks (respond msgs)"
  shows "length ups = length cs
    \<and> (\<forall>i. i < length cs \<longrightarrow> ups ! i = concat (map delta_text (take (Suc i) cs)))
    \<and> (\<forall>i. Suc i < length cs \<longrightarrow>
          prefix (ups ! i) (ups ! Suc i) \<and>
          (strict_prefix (ups ! i) (ups ! Suc i) \<longleftrightarrow> delta_text (cs ! Suc i) \<noteq> []))"
proof -
  have ups: "ups = running [] cs"
    unfolding ups_def cs_def streamResponse_calls_Some
    by (simp add: updates_append updates_map_OnUpdate split: option.split sum.split)
  have a: "length ups = length cs"
    by (simp add: ups running_length)
  have b: "\<forall>i. i < length cs \<longrightarrow> ups ! i = concat (map delta_text (take (Suc i) cs))"
    by (simp add: ups running_nth)
  have c: "\<forall>i. Suc i < length cs \<longrightarrow>
          prefix (ups ! i) (ups ! Suc i) \<and>
          (strict_prefix (ups ! i) (ups ! Suc i) \<longleftrightarrow> delta_text (cs ! Suc i) \<noteq> [])"
  proof (intro allI impI)
    fix i assume "Suc i < length cs"
    then have "ups ! Suc i = ups ! i @ delta_text (cs ! Suc i)"
      unfolding ups by (rule running_step)
    then show "prefix (ups ! i) (ups ! Suc i) \<and>
          (strict_prefix (ups ! i) (ups ! Suc i) \<longleftrightarrow> delta_text (cs ! Suc i) \<noteq> [])"
      by (simp add: strict_prefix_def)
  qed
  from a b c show ?thesis by blast
qed

theorem streamResponse_updates_prefix_witness:
  "updates (streamResponse_calls (Some stream_without_usage) []) ! 0 = ''The answer''
   \<and> updates (streamResponse_calls (Some stream_without_usage) []) ! 1 = ''The answer is 4.''
   \<and> strict_prefix (updates (streamResponse_calls (Some stream_without_usage) []) ! 0)
                     (updates (streamResponse_calls (Some stream_without_usage) []) ! 1)"
proof -
  let ?ups = "updates (streamResponse_calls (Some stream_without_usage) [])"
  have len: "length (chunks (stream_without_usage [])) = 2"
    by (simp add: stream_without_usage_def)
  from streamResponse_updates_prefix [of stream_without_usage "[]"]
  have all: "\<forall>i. i < length (chunks (stream_without_usage [])) \<longrightarrow>
               ?ups ! i = concat (map delta_text (take (Suc i) (chunks (stream_without_usage []))))"
    and step: "\<forall>i. Suc i < length (chunks (stream_without_usage [])) \<longrightarrow>
          prefix (?ups ! i) (?ups ! Suc i) \<and>
          (strict_prefix (?ups ! i) (?ups ! Suc i) \<longleftrightarrow>
             delta_text (chunks (stream_without_usage []) ! Suc i) \<noteq> [])"
    by blast+
  from all len have 0: "?ups ! 0 = ''The answer''"
    by (simp add: stream_without_usage_def delta_text_def)
  from all [rule_format, of 1] len have 1: "?ups ! 1 = ''The answer is 4.''"
    by (simp add: stream_without_usage_def delta_text_def)
  from step [rule_format, of 0] len have "strict_prefix (?ups ! 0) (?ups ! 1)"
    by (simp add: stream_without_usage_def delta_text_def)
  with 0 1 show ?thesis by simp
qed

text \<open>
  C6 as stated fails: the text handed to \<^verbatim>\<open>onFinish\<close> is what \<^verbatim>\<open>engine.getMessage()\<close> returns
  (line 134), not the accumulated \<^verbatim>\<open>currentMessage\<close>; for an engine whose final message
  differs from the deltas it streamed, the two differ.
\<close>

theorem streamResponse_finish_text_differs:
  "streamResponse_calls (Some stream_final_differs) [] =
     [Create [], OnUpdate ''ab'', OnFinish ''abc'' usage0]
   \<and> concat (map delta_text (chunks (stream_final_differs []))) = ''ab''"
  by (simp add: streamResponse_calls_Some stream_final_differs_def delta_text_def)

text \<open>
  C6, amended. When the stream completes (neither the iterator nor \<^verbatim>\<open>getMessage\<close> throws) and
  some chunk carried a usage summary, \<^verbatim>\<open>onFinish\<close> is invoked exactly once, as the last call,
  with the text \<^verbatim>\<open>engine.getMessage()\<close> returned and the last usage summary seen; that text is
  the accumulated text (the last text given to \<^verbatim>\<open>onUpdate\<close>) whenever the engine's final
  message is the concatenation of the deltas.
\<close>

theorem streamResponse_finish_once:
  fixes respond :: "Message list \<Rightarrow> completion" and msgs :: "Message list"
  defines "calls \<equiv> streamResponse_calls (Some respond) msgs"
      and "cs \<equiv> chunks (respond msgs)"
  assumes completes: "thrown (respond msgs) = None" "getMessage (respond msgs) = Inr finalMessage"
      and usage_received: "\<exists>c \<in> set cs. usage c \<noteq> None"
  shows "\<exists>u. last_usage None cs = Some u
    \<and> calls = Create msgs # map OnUpdate (running [] cs) @ [OnFinish finalMessage u]
    \<and> filter is_OnFinish calls = [OnFinish finalMessage u]
    \<and> (finalMessage = concat (map delta_text cs) \<longrightarrow> finalMessage = last (updates calls))"
proof -
  from usage_received obtain u where u: "last_usage None cs = Some u"
    using last_usage_None_iff [of None cs] by (cases "last_usage None cs") auto
  have calls: "calls = Create msgs # map OnUpdate (running [] cs) @ [OnFinish finalMessage u]"
    unfolding calls_def streamResponse_calls_Some using completes u by (simp add: cs_def)
  have once: "filter is_OnFinish calls = [OnFinish finalMessage u]"
    by (simp add: calls count_OnFinish_updates)
  from usage_received have ne: "cs \<noteq> []" by auto
  have "updates calls = running [] cs"
    by (simp add: calls updates_append updates_map_OnUpdate)
  moreover have "last (running [] cs) = concat (map delta_text cs)"
  proof -
    from ne have "running [] cs \<noteq> []" by (cases cs) simp_all
    then have "last (running [] cs) = running [] cs ! (length cs - 1)"
      by (simp add: last_conv_nth running_length)
    also from ne have "\<dots> = concat (map delta_text (take (Suc (length cs - 1)) cs))"
      by (simp add: running_nth)
    also from ne have "\<dots> = concat (map delta_text cs)" by simp
    finally show ?thesis .
  qed
  ultimately have "finalMessage = concat (map delta_text cs) \<longrightarrow> finalMessage = last (updates calls)"
    by simp
  with u calls once show ?thesis by blast
qed

theorem streamResponse_finish_once_witness:
  "streamResponse_calls (Some stream_with_usage) [] =
     [Create [], OnUpdate ''a'', OnUpdate ''a'', OnFinish ''a'' usage0]
   \<and> filter is_OnFinish (streamResponse_calls (Some stream_with_usage) []) = [OnFinish ''a'' usage0]
   \<and> ''a'' = last (updates (streamResponse_calls (Some stream_with_usage) []))"
proof -
  have 1: "thrown (stream_with_usage []) = None"
    and 2: "getMessage (stream_with_usage []) = Inr ''a''"
    and 3: "\<exists>c \<in> set (chunks (stream_with_usage [])). usage c \<noteq> None"
    and 4: "last_usage None (chunks (stream_with_usage [])) = Some usage0"
    and 5: "running [] (chunks (stream_with_usage [])) = [''a'', ''a'']"
    and 6: "concat (map delta_text (chunks (stream_with_usage []))) = ''a''"
    by (simp_all add: stream_with_usage_def delta_text_def)
  let ?calls = "streamResponse_calls (Some stream_with_usage) []"
  from streamResponse_finish_once [of stream_with_usage "[]" "''a''", OF 1 2 3]
  obtain u where a: "last_usage None (chunks (stream_with_usage [])) = Some u"
    and b: "?calls = Create [] # map OnUpdate (running [] (chunks (stream_with_usage []))) @
                       [OnFinish ''a'' u]"
    and c: "filter is_OnFinish ?calls = [OnFinish ''a'' u]"
    and d: "''a'' = concat (map delta_text (chunks (stream_with_usage []))) \<longrightarrow>
            ''a'' = last (updates ?calls)"
    by blast
  from a 4 have u: "u = usage0" by simp
  from d 6 have e: "last (updates ?calls) = ''a''" by metis
  from b have b': "?calls = [Create [], OnUpdate ''a'', OnUpdate ''a'', OnFinish ''a'' usage0]"
    unfolding 5 u by simp
  from c have c': "filter is_OnFinish ?calls = [OnFinish ''a'' usage0]"
    unfolding u .
  from b' c' e [symmetric] show ?thesis by (intro conjI)
qed

text \<open>
  C7 as stated fails: \<^verbatim>\<open>streamResponse\<close> tests only whether \<^verbatim>\<open>engine\<close> is \<^verbatim>\<open>null\<close>, and
  \<^verbatim>\<open>initializeWebLLMEngine\<close> assigns the variable before \<^verbatim>\<open>reload\<close> has finished and leaves it
  assigned when \<^verbatim>\<open>reload\<close> fails. Here \<^verbatim>\<open>reload\<close> fails, \<^verbatim>\<open>onCompletion\<close> is never called, so the
  engine is not ready; yet both while \<^verbatim>\<open>reload\<close> is pending and after it has failed the
  streamer sends the \<^verbatim>\<open>create\<close> request to the engine, and the error it reports is the
  engine's own, not "Engine not initialized".
\<close>

theorem streamResponse_contacts_unready_engine:
  "rethrown (initializeWebLLMEngine unloaded_engine failing_reload) = Some ''Failed to fetch''
   \<and> \<not> onCompletion_called (initializeWebLLMEngine unloaded_engine failing_reload)
   \<and> streamResponse_calls (engine_pending (initializeWebLLMEngine unloaded_engine failing_reload)) []
       = [Create [], OnError ''Model not loaded'']
   \<and> streamResponse_calls (engine_settled (initializeWebLLMEngine unloaded_engine failing_reload)) []
       = [Create [], OnError ''Model not loaded'']"
  by (simp add: initializeWebLLMEngine_def failing_reload_def unloaded_engine_def
      streamResponse_calls_Some)

text \<open>
  C7, amended. Called while \<^verbatim>\<open>engine\<close> is \<^verbatim>\<open>null\<close> (\<^verbatim>\<open>initializeWebLLMEngine\<close> has not yet
  created the engine), \<^verbatim>\<open>streamResponse\<close> invokes \<^verbatim>\<open>onError\<close> with "Engine not initialized" on
  the unchanged state and does nothing else, whatever the callbacks are: the recorded run is
  that single call, with no \<^verbatim>\<open>create\<close> request, no \<^verbatim>\<open>onUpdate\<close> and no \<^verbatim>\<open>onFinish\<close>. From the
  moment \<^verbatim>\<open>initializeWebLLMEngine\<close> has created the engine, also while \<^verbatim>\<open>reload\<close> is pending
  and after it has failed, \<^verbatim>\<open>streamResponse\<close> does contact the engine: its run starts with the
  \<^verbatim>\<open>create\<close> request, continues with one \<^verbatim>\<open>onUpdate\<close> per chunk, and ends with \<^verbatim>\<open>onError\<close> on
  the engine's failure or \<^verbatim>\<open>onFinish\<close> on its final message.
\<close>

theorem streamResponse_engine_guard:
  fixes fresh :: engine_object and reload :: "engine_object \<Rightarrow> string option \<times> engine_object"
  defines "init \<equiv> initializeWebLLMEngine fresh reload"
  defines "run \<equiv> \<lambda>e msgs.
             Create msgs # map OnUpdate (running [] (chunks (e msgs))) @
               [case stream_result (e msgs) of
                  Inl err \<Rightarrow> OnError err
                | Inr (finalMessage, u) \<Rightarrow> OnFinish finalMessage u]"
  shows "streamResponse None msgs onUpdate onFinish onError s = onError ''Engine not initialized'' s
    \<and> streamResponse_calls None msgs = [OnError ''Engine not initialized'']
    \<and> streamResponse_calls (engine_pending init) msgs = run fresh msgs
    \<and> streamResponse_calls (engine_settled init) msgs = run (snd (reload fresh)) msgs
    \<and> (onCompletion_called init \<longleftrightarrow> fst (reload fresh) = None)"
proof -
  have run: "streamResponse_calls (Some e) msgs = run e msgs" for e
    unfolding run_def streamResponse_calls_Some
    by (simp add: stream_result_def split: option.split sum.split)
  have "streamResponse None msgs onUpdate onFinish onError s = onError ''Engine not initialized'' s"
    by (simp add: streamResponse_def)
  moreover have "streamResponse_calls None msgs = [OnError ''Engine not initialized'']"
    by (simp add: streamResponse_def streamResponse_calls_def)
  moreover have "engine_pending init = Some fresh" "engine_settled init = Some (snd (reload fresh))"
    "onCompletion_called init \<longleftrightarrow> fst (reload fresh) = None"
    by (simp_all add: init_def initializeWebLLMEngine_def split: prod.split)
  ultimately show ?thesis by (simp add: run)
qed

section \<open>Properties of the orchestration\<close>

lemma streamResponse_Some:
  "streamResponse (Some create) msgs onUpdate onFinish onError s =
     (case create msgs s of
        (c, s0) \<Rightarrow>
          (case stream_result c of
             Inl e \<Rightarrow> onError e (foldl (\<lambda>s m. onUpdate m s) s0 (running [] (chunks c)))
           | Inr (m, u) \<Rightarrow> onFinish m u (foldl (\<lambda>s m. onUpdate m s) s0 (running [] (chunks c)))))"
  by (simp add: streamResponse_def stream_result_def for_await_eq
      split: prod.split option.split sum.split)

lemma engine_on_Some:
  "engine env = Some create \<Longrightarrow>
   engine_on env =
     Some (\<lambda>msgs s. case create msgs (world s) of
             (c, w') \<Rightarrow> (c, s\<lparr>world := w', trace := trace s @ [EngineCreate msgs]\<rparr>))"
  by (simp add: engine_on_def)

lemma engine_on_None: "engine env = None \<Longrightarrow> engine_on env = None"
  by (simp add: engine_on_def)

lemma recovery_never_finishes:
  assumes "always_fails env" and "always_code env"
  shows "\<not> finished (runAndExplainCode n env code callbacks s)"
proof (induction n arbitrary: code s)
  case 0
  show ?case by simp
next
  case (Suc n)
  from assms(2) obtain create where create: "engine env = Some create"
    and code: "\<And>msgs w. \<exists>c w' m u. create msgs w = (c, w') \<and> stream_result c = Inr (m, u) \<and>
            truthy (extractCodeFromMarkdown env m)"
    unfolding always_code_def by blast
  from assms(1) obtain r w1 where exec: "executePython env code (world s) = (Inr r, w1)"
    and fail: "truthy (error r)"
    unfolding always_fails_def by blast
  define s1 where "s1 = handleError (the (error r)) callbacks (s\<lparr>world := w1, trace := trace s @ [Execute code]\<rparr>)"
  define s2 where "s2 = push \<lparr>role = User, content = errorMessage (the (error r)) code\<rparr> s1"
  from code [of "messages s2" "world s2"] obtain c w' m u where
    resp: "create (messages s2) (world s2) = (c, w')" "stream_result c = Inr (m, u)"
      "truthy (extractCodeFromMarkdown env m)"
    by blast
  show ?case
    using exec fail resp
    by (simp add: run_sandbox_def streamResponse_Some engine_on_Some [OF create] Let_def
        s1_def [symmetric] s2_def [symmetric] Suc.IH)
qed

lemma recorder_simps [simp]:
  "onResultUpdate recorder r = emit (ResultUpdate r)"
  "onCodeOutputUpdate recorder out = emit (CodeOutputUpdate out)"
  "onExplanationUpdate recorder ex = emit (ExplanationUpdate ex)"
  "onErrorUpdate recorder b = emit (ErrorUpdate b)"
  "onUsageUpdate recorder u = emit (UsageUpdate u)"
  by (simp_all add: recorder_def)

lemma emit_simps [simp]:
  "trace (emit e s) = trace s @ [e]"
  "messages (emit e s) = messages s"
  "world (emit e s) = world s"
  by (simp_all add: emit_def)

lemma push_simps [simp]:
  "trace (push m s) = trace s"
  "messages (push m s) = messages s @ [m]"
  "world (push m s) = world s"
  by (simp_all add: push_def)

lemma foldl_emit:
  "foldl (\<lambda>s m. emit (f m) s) s ms = s\<lparr>trace := trace s @ map f ms\<rparr>"
  "foldl (\<lambda>s m. s\<lparr>trace := trace s @ [f m]\<rparr>) s ms = s\<lparr>trace := trace s @ map f ms\<rparr>"
  by (induction ms arbitrary: s) (simp_all add: emit_def)

lemma handleError_recorder:
  "handleError e recorder s =
     \<lparr>world = world s, messages = messages s,
      trace = trace s @ [ErrorUpdate True, ResultUpdate (''Error: '' @ e)]\<rparr>"
  by (cases s) (simp add: handleError_def emit_def)

lemma runAndExplainCode_failure:
  assumes "executePython env code (world s) = (Inr r, w1)" and "truthy (error r)"
  shows "runAndExplainCode (Suc n) env code recorder s =
           handleCodeError n env (the (error r)) code recorder
             \<lparr>world = w1, messages = messages s,
              trace = trace s @ [Execute code, ErrorUpdate True,
                                 ResultUpdate (''Error: '' @ the (error r))]\<rparr>"
  using assms by (cases s) (simp add: run_sandbox_def handleError_recorder)

lemma handleCodeError_not_ready:
  assumes "engine env = None"
  shows "handleCodeError n env err code recorder s =
           Finished
             \<lparr>world = world s,
              messages = messages s @ [\<lparr>role = User, content = errorMessage err code\<rparr>],
              trace = trace s @ [ErrorUpdate True, ResultUpdate ''Error: Engine not initialized'']\<rparr>"
  using assms
  by (cases s) (simp add: engine_on_None streamResponse_def handleError_recorder push_def)

lemma handleCodeError_ready:
  fixes s :: "'w state"
  defines "conversation \<equiv> \<lambda>err code. messages s @ [\<lparr>role = User, content = errorMessage err code\<rparr>]"
  assumes "engine env = Some create"
      and "create (conversation err code) (world s) = (c, w2)"
  shows "handleCodeError n env err code recorder s =
           (let tr = trace s @ EngineCreate (conversation err code) #
                       map ResultUpdate (running [] (chunks c))
            in case stream_result c of
                 Inl e \<Rightarrow>
                   Finished
                     \<lparr>world = w2, messages = conversation err code,
                      trace = tr @ [ErrorUpdate True, ResultUpdate (''Error: '' @ e)]\<rparr>
               | Inr (m, u) \<Rightarrow>
                   (let s2 = \<lparr>world = w2, messages = conversation err code,
                              trace = tr @ [ResultUpdate m, UsageUpdate u]\<rparr>
                    in if truthy (extractCodeFromMarkdown env m)
                       then runAndExplainCode n env (the (extractCodeFromMarkdown env m)) recorder s2
                       else Finished s2))"
  using assms(2,3)
  by (cases s)
     (simp add: conversation_def engine_on_Some streamResponse_Some foldl_emit
      handleError_recorder push_def emit_def Let_def split: sum.split)

lemma executions_append [simp]: "executions (xs @ ys) = executions xs + executions ys"
  by (induction xs rule: executions.induct) simp_all

lemma executions_ResultUpdates [simp]: "executions (map ResultUpdate ms) = 0"
  by (induction ms) simp_all

lemma recovery_executions:
  assumes "always_fails env" and "always_code env"
  shows "executions (trace (state_of (runAndExplainCode n env code recorder s))) =
           executions (trace s) + n"
proof (induction n arbitrary: code s)
  case 0
  show ?case by simp
next
  case (Suc n)
  from assms(2) obtain create where create: "engine env = Some create"
    and code: "\<And>msgs w. \<exists>c w' m u. create msgs w = (c, w') \<and> stream_result c = Inr (m, u) \<and>
            truthy (extractCodeFromMarkdown env m)"
    unfolding always_code_def by blast
  from assms(1) obtain r w1 where exec: "executePython env code (world s) = (Inr r, w1)"
    and fail: "truthy (error r)"
    unfolding always_fails_def by blast
  let ?s1 = "\<lparr>world = w1, messages = messages s,
              trace = trace s @ [Execute code, ErrorUpdate True,
                                 ResultUpdate (''Error: '' @ the (error r))]\<rparr>"
  let ?conv = "messages ?s1 @ [\<lparr>role = User, content = errorMessage (the (error r)) code\<rparr>]"
  from code [of ?conv "world ?s1"] obtain c w' m u where
    resp: "create ?conv (world ?s1) = (c, w')" "stream_result c = Inr (m, u)"
      "truthy (extractCodeFromMarkdown env m)"
    by blast
  show ?case
    unfolding runAndExplainCode_failure [OF exec fail]
      handleCodeError_ready [OF create resp(1)]
    using resp(2,3) by (simp add: Suc.IH)
qed

lemma runAndExplainCode_rejects:
  assumes "executePython env code (world s) = (Inl e, w1)"
  shows "runAndExplainCode (Suc n) env code recorder s =
           Finished
             \<lparr>world = w1, messages = messages s,
              trace = trace s @ [Execute code, ErrorUpdate True, ResultUpdate (''Error: '' @ e)]\<rparr>"
  using assms by (cases s) (simp add: run_sandbox_def handleError_recorder)

lemma runAndExplainCode_nothing:
  assumes "executePython env code (world s) = (Inr r, w1)"
      and "\<not> truthy (error r)" and "results r = None"
  shows "runAndExplainCode (Suc n) env code callbacks s =
           Finished \<lparr>world = w1, messages = messages s, trace = trace s @ [Execute code]\<rparr>"
  using assms by (cases s) (simp add: run_sandbox_def)

lemma runAndExplainCode_success:
  assumes "executePython env code (world s) = (Inr r, w1)"
      and "\<not> truthy (error r)" and "results r = Some res"
  shows "runAndExplainCode (Suc n) env code recorder s =
           Finished
             \<lparr>world = w1,
              messages = messages s @
                [\<lparr>role = Assistant,
                  content = ''The code executed successfully with the following output: ''
                            @ compose_output res\<rparr>],
              trace = trace s @ Execute code #
                (if compose_output res = [] then []
                 else [CodeOutputUpdate (Some (trim (compose_output res)))])\<rparr>"
  using assms by (cases s) (simp add: run_sandbox_def push_def emit_def Let_def)

lemma handleUserInput_not_ready:
  assumes "engine env = None"
  shows "handleUserInput fuel env input recorder w =
           Finished
             \<lparr>world = w, messages = initial_conversation input,
              trace = [ErrorUpdate True, ResultUpdate ''Error: Engine not initialized'']\<rparr>"
  using assms
  by (simp add: handleUserInput_def engine_on_None streamResponse_def handleError_recorder
      initial_conversation_def)

lemma handleUserInput_ready:
  assumes "engine env = Some create"
      and "create (initial_conversation input) w = (c, w1)"
  shows "handleUserInput fuel env input recorder w =
           (let tr = EngineCreate (initial_conversation input) #
                       map ResultUpdate (running [] (chunks c))
            in case stream_result c of
                 Inl e \<Rightarrow>
                   Finished
                     \<lparr>world = w1, messages = initial_conversation input,
                      trace = tr @ [ErrorUpdate True, ResultUpdate (''Error: '' @ e)]\<rparr>
               | Inr (m, u) \<Rightarrow>
                   (let s2 = \<lparr>world = w1, messages = initial_conversation input,
                              trace = tr @ [ResultUpdate m, UsageUpdate u]\<rparr>
                    in if truthy (extractCodeFromMarkdown env m)
                       then runAndExplainCode fuel env (the (extractCodeFromMarkdown env m)) recorder s2
                       else Finished s2))"
  using assms
  by (simp add: handleUserInput_def initial_conversation_def [symmetric] engine_on_Some
      streamResponse_Some foldl_emit handleError_recorder emit_def Let_def split: sum.split)

lemma conversations_append [simp]:
  "conversations (xs @ ys) = conversations xs @ conversations ys"
  by (induction xs rule: conversations.induct) simp_all

lemma conversations_ResultUpdates [simp]: "conversations (map ResultUpdate ms) = []"
  by (induction ms) simp_all

lemma sorted_wrt_prefix_snoc:
  assumes "sorted_wrt prefix (xs @ [a])" and "prefix a b"
  shows "sorted_wrt prefix (xs @ [a, b])"
proof -
  have "\<forall>x \<in> set xs. prefix x a" using assms(1) by (simp add: sorted_wrt_append)
  then have "\<forall>x \<in> set xs. prefix x b" using assms(2) by (meson prefix_order.trans)
  with assms show ?thesis by (simp add: sorted_wrt_append)
qed

lemma sorted_wrt_prefix_replace:
  assumes "sorted_wrt prefix (xs @ [a])" and "prefix a b"
  shows "sorted_wrt prefix (xs @ [b])"
proof -
  have "\<forall>x \<in> set xs. prefix x a" using assms(1) by (simp add: sorted_wrt_append)
  then have "\<forall>x \<in> set xs. prefix x b" using assms(2) by (meson prefix_order.trans)
  with assms show ?thesis by (simp add: sorted_wrt_append)
qed

lemma turn_inv_length:
  assumes "turn_inv input s"
  shows "2 \<le> length (messages s)"
proof -
  from assms have "take 2 (messages s) = initial_conversation input"
    by (simp add: turn_inv_def)
  then have "length (take 2 (messages s)) = length (initial_conversation input)"
    by (rule arg_cong)
  then show ?thesis by (simp add: initial_conversation_def)
qed

lemma turn_inv_prefix:
  assumes "turn_inv input s"
  shows "prefix (initial_conversation input) (messages s)"
proof -
  from assms have "take 2 (messages s) = initial_conversation input"
    by (simp add: turn_inv_def)
  then show ?thesis by (metis take_is_prefix)
qed

lemma turn_inv_same:
  assumes "turn_inv input s" and "messages s' = messages s"
      and "conversations (trace s') = conversations (trace s)"
  shows "turn_inv input s'"
  using assms by (simp add: turn_inv_def)

lemma turn_inv_sent:
  assumes "turn_inv input s" and "appended_ok m"
      and "messages s' = messages s @ [m]"
      and "conversations (trace s') = conversations (trace s) @ [messages s @ [m]]"
  shows "turn_inv input s'"
proof -
  from assms(1) have len: "2 \<le> length (messages s)"
    by (rule turn_inv_length)
  from assms(1) have "sorted_wrt prefix (conversations (trace s) @ [messages s])"
    by (simp add: turn_inv_def)
  then have chain: "sorted_wrt prefix (conversations (trace s) @ [messages s, messages s @ [m]])"
    by (rule sorted_wrt_prefix_snoc) simp
  have "sorted_wrt prefix ((conversations (trace s) @ [messages s @ [m]]) @ [messages s @ [m]])"
    using chain by (auto simp: sorted_wrt_append)
  moreover have "prefix (initial_conversation input) (messages s @ [m])"
    using turn_inv_prefix [OF assms(1)] by (rule prefix_prefix)
  ultimately show ?thesis
    using assms len by (simp add: turn_inv_def)
qed

lemma turn_inv_push:
  assumes "turn_inv input s" and "appended_ok m"
      and "messages s' = messages s @ [m]"
      and "conversations (trace s') = conversations (trace s)"
  shows "turn_inv input s'"
proof -
  from assms(1) have len: "2 \<le> length (messages s)"
    by (rule turn_inv_length)
  from assms(1) have "sorted_wrt prefix (conversations (trace s) @ [messages s])"
    by (simp add: turn_inv_def)
  then have "sorted_wrt prefix (conversations (trace s) @ [messages s @ [m]])"
    by (rule sorted_wrt_prefix_replace) simp
  then show ?thesis
    using assms len by (simp add: turn_inv_def)
qed

lemma appended_ok_report:
  "appended_ok \<lparr>role = User, content = errorMessage err code\<rparr>"
  by (simp add: appended_ok_def error_report_def errorMessage_def)

lemma appended_ok_summary:
  "appended_ok \<lparr>role = Assistant,
     content = ''The code executed successfully with the following output: '' @ out\<rparr>"
  by (simp add: appended_ok_def success_summary_def)

lemma turn_inv_runAndExplainCode:
  assumes "turn_inv input s"
  shows "turn_inv input (state_of (runAndExplainCode n env code recorder s))"
  using assms
proof (induction n arbitrary: code s)
  case 0
  then show ?case by simp
next
  case (Suc n)
  obtain x w1 where exec: "executePython env code (world s) = (x, w1)"
    by (cases "executePython env code (world s)")
  show ?case
  proof (cases x)
    case (Inl e)
    show ?thesis
      unfolding runAndExplainCode_rejects [OF exec [unfolded Inl]]
      using Suc.prems by (simp add: turn_inv_same)
  next
    case (Inr r)
    note exec = exec [unfolded Inr]
    show ?thesis
    proof (cases "truthy (error r)")
      case False
      show ?thesis
      proof (cases "results r")
        case None
        show ?thesis
          unfolding runAndExplainCode_nothing [OF exec False None]
          using Suc.prems by (simp add: turn_inv_same)
      next
        case (Some res)
        let ?sum = "\<lparr>role = Assistant,
                     content = ''The code executed successfully with the following output: ''
                               @ compose_output res\<rparr>"
        have "turn_inv input \<lparr>world = w1, messages = messages s @ [?sum], trace = trace s @ Execute code #
                (if compose_output res = [] then []
                 else [CodeOutputUpdate (Some (trim (compose_output res)))])\<rparr>"
          using Suc.prems appended_ok_summary by (rule turn_inv_push) simp_all
        then show ?thesis
          unfolding runAndExplainCode_success [OF exec False Some] state_of.simps .
      qed
    next
      case True
      define s1 :: "'a state" where
        "s1 = \<lparr>world = w1, messages = messages s,
               trace = trace s @ [Execute code, ErrorUpdate True,
                                  ResultUpdate (''Error: '' @ the (error r))]\<rparr>"
      have s1: "turn_inv input s1"
        using Suc.prems by (rule turn_inv_same) (simp_all add: s1_def)
      have run: "runAndExplainCode (Suc n) env code recorder s =
                   handleCodeError n env (the (error r)) code recorder s1"
        unfolding s1_def by (rule runAndExplainCode_failure [OF exec True])
      let ?m = "\<lparr>role = User, content = errorMessage (the (error r)) code\<rparr>"
      show ?thesis
      proof (cases "engine env")
        case None
        have "turn_inv input
                \<lparr>world = world s1, messages = messages s1 @ [?m],
                 trace = trace s1 @ [ErrorUpdate True, ResultUpdate ''Error: Engine not initialized'']\<rparr>"
          using s1 appended_ok_report by (rule turn_inv_push) simp_all
        then show ?thesis
          unfolding run handleCodeError_not_ready [OF None] state_of.simps .
      next
        case (Some create)
        obtain c w2 where resp: "create (messages s1 @ [?m]) (world s1) = (c, w2)"
          by (cases "create (messages s1 @ [?m]) (world s1)")
        show ?thesis
        proof (cases "stream_result c")
          case (Inl e)
          have "turn_inv input
                  \<lparr>world = w2, messages = messages s1 @ [?m],
                   trace = (trace s1 @ EngineCreate (messages s1 @ [?m]) #
                              map ResultUpdate (running [] (chunks c))) @
                           [ErrorUpdate True, ResultUpdate (''Error: '' @ e)]\<rparr>"
            using s1 appended_ok_report by (rule turn_inv_sent) simp_all
          then show ?thesis
            unfolding run handleCodeError_ready [OF Some resp] using Inl by simp
        next
          case (Inr mu)
          obtain m u where mu: "mu = (m, u)" by (cases mu)
          define s2 :: "'a state" where
            "s2 = \<lparr>world = w2, messages = messages s1 @ [?m],
                   trace = (trace s1 @ EngineCreate (messages s1 @ [?m]) #
                              map ResultUpdate (running [] (chunks c))) @
                           [ResultUpdate m, UsageUpdate u]\<rparr>"
          have s2: "turn_inv input s2"
            using s1 appended_ok_report by (rule turn_inv_sent) (simp_all add: s2_def)
          have "handleCodeError n env (the (error r)) code recorder s1 =
                  (if truthy (extractCodeFromMarkdown env m)
                   then runAndExplainCode n env (the (extractCodeFromMarkdown env m)) recorder s2
                   else Finished s2)"
            unfolding handleCodeError_ready [OF Some resp] s2_def using Inr mu by simp
          with run Suc.IH [OF s2] s2 show ?thesis by simp
        qed
      qed
    qed
  qed
qed

lemma turn_inv_handleUserInput:
  "turn_inv input (state_of (handleUserInput fuel env input recorder w))"
proof (cases "engine env")
  case None
  show ?thesis
    unfolding handleUserInput_not_ready [OF None]
    by (simp add: turn_inv_def initial_conversation_def)
next
  case (Some create)
  obtain c w1 where resp: "create (initial_conversation input) w = (c, w1)"
    by (cases "create (initial_conversation input) w")
  have init: "turn_inv input
                \<lparr>world = w1, messages = initial_conversation input,
                 trace = (EngineCreate (initial_conversation input) #
                           map ResultUpdate (running [] (chunks c))) @ rest\<rparr>"
    if "conversations rest = []" for rest
    using that by (simp add: turn_inv_def initial_conversation_def)
  show ?thesis
  proof (cases "stream_result c")
    case (Inl e)
    show ?thesis
      unfolding handleUserInput_ready [OF Some resp]
      using Inl init [of "[ErrorUpdate True, ResultUpdate (''Error: '' @ e)]"] by simp
  next
    case (Inr mu)
    obtain m u where mu: "mu = (m, u)" by (cases mu)
    show ?thesis
      unfolding handleUserInput_ready [OF Some resp]
      using Inr mu init [of "[ResultUpdate m, UsageUpdate u]"]
      by (simp add: turn_inv_runAndExplainCode Let_def)
  qed
qed

declare runAndExplainCode.simps(2) [simp del] handleCodeError.simps [simp del]

subsection \<open>The stub collaborators\<close>

lemma failing_env_simps:
  "engine failing_env = Some stub_engine"
  "executePython failing_env code w = (Inr \<lparr>results = None, error = Some ''NameError: name x is not defined''\<rparr>, w)"
  "extractCodeFromMarkdown failing_env = stub_extract"
  by (simp_all add: failing_env_def sandbox_env_def)

lemma sandbox_env_simps:
  "engine (sandbox_env r) = Some stub_engine"
  "executePython (sandbox_env r) code w = (Inr r, w)"
  "extractCodeFromMarkdown (sandbox_env r) = stub_extract"
  by (simp_all add: sandbox_env_def)

lemma always_fails_failing_env: "always_fails failing_env"
  by (simp add: always_fails_def failing_env_def sandbox_env_def truthy_def)

lemma stream_result_stub_engine:
  "stream_result (fst (stub_engine msgs w)) = Inr (python_fence, usage0)"
  by (simp add: stub_engine_def stream_result_def)

lemma always_code_sandbox_env: "always_code (sandbox_env r)"
  unfolding always_code_def
proof (intro exI conjI allI)
  show "engine (sandbox_env r) = Some stub_engine"
    by (simp add: sandbox_env_def)
next
  fix msgs w
  show "stub_engine msgs w = (fst (stub_engine msgs w), snd (stub_engine msgs w))" by simp
  show "stream_result (fst (stub_engine msgs w)) = Inr (python_fence, usage0)"
    by (rule stream_result_stub_engine)
  show "truthy (extractCodeFromMarkdown (sandbox_env r) python_fence)"
    by (simp add: sandbox_env_def stub_extract_def truthy_def)
qed

subsection \<open>The recovery loop has no bound\<close>

text \<open>
  C3 as stated fails: against the sandbox that always fails and the engine that always answers
  with a fenced block, no amount of fuel lets \<^verbatim>\<open>runAndExplainCode\<close> finish, and the run with
  fuel \<open>n\<close> has executed code \<open>n\<close> times: there is no cap on recovery attempts.
\<close>

theorem recovery_loop_never_terminates:
  "\<forall>n. \<not> finished (runAndExplainCode n failing_env ''print(5)'' recorder state0)
       \<and> executions (trace (state_of (runAndExplainCode n failing_env ''print(5)'' recorder state0))) = n"
proof -
  have code: "always_code failing_env"
    unfolding failing_env_def by (rule always_code_sandbox_env)
  show ?thesis
    using recovery_never_finishes [OF always_fails_failing_env code]
      recovery_executions [OF always_fails_failing_env code]
    by (simp add: state0_def)
qed

text \<open>
  C3, amended. For every sandbox that always fails and every engine whose every response
  contains extractable code, the recovery loop never reaches a terminal state: whatever the
  fuel \<open>n\<close>, the run is still going after \<open>n\<close> sandbox executions.
\<close>

theorem recovery_loop_unbounded:
  assumes "always_fails env" and "always_code env"
  shows "\<not> finished (runAndExplainCode n env code recorder s)
    \<and> executions (trace (state_of (runAndExplainCode n env code recorder s))) =
        executions (trace s) + n"
  using recovery_never_finishes [OF assms] recovery_executions [OF assms] by simp

theorem recovery_loop_unbounded_witness:
  "\<not> finished (runAndExplainCode 3 failing_env ''print(5)'' recorder state0)
   \<and> executions (trace (state_of (runAndExplainCode 3 failing_env ''print(5)'' recorder state0))) = 3"
  using recovery_loop_unbounded [of failing_env 3 "''print(5)''" state0]
    always_fails_failing_env always_code_sandbox_env [of "\<lparr>results = None, error = Some ''NameError: name x is not defined''\<rparr>"]
  by (simp add: failing_env_def state0_def)

subsection \<open>The conversation of a turn\<close>

text \<open>
  C8. Whatever the engine, the sandbox and the fuel, at the state a turn has reached the
  conversation starts with the system prompt and the user's question; every message after
  them is an assistant-role success summary or a user-role error report (\<^verbatim>\<open>llm.ts\<close> appends
  nothing else: neither the model's own responses nor an explanation request); every
  conversation sent to the engine starts with the same two messages; and the conversations
  sent to the engine, in order, followed by the final one, are each a prefix of the next: the
  conversation only grew by appending.
\<close>

theorem conversation_append_only:
  fixes env :: "'w env" and fuel :: nat and input :: string and w :: 'w
  defines "s \<equiv> state_of (handleUserInput fuel env input recorder w)"
  defines "start \<equiv> [\<lparr>role = System, content = SYSTEM_PROMPT\<rparr>, \<lparr>role = User, content = input\<rparr>]"
  shows "take 2 (messages s) = start
    \<and> list_all (\<lambda>m. success_summary m \<or> error_report m) (drop 2 (messages s))
    \<and> list_all (prefix start) (conversations (trace s))
    \<and> sorted_wrt prefix (conversations (trace s) @ [messages s])"
  using turn_inv_handleUserInput [of input fuel env w]
  unfolding s_def start_def turn_inv_def initial_conversation_def appended_ok_def
  by simp

subsection \<open>One execution of extracted code\<close>

text \<open>
  C9. When the sandbox returns a failure (\<^verbatim>\<open>error\<close> is a non-empty string), one round of
  \<^verbatim>\<open>runAndExplainCode\<close> executes the code, signals \<^verbatim>\<open>onErrorUpdate(true)\<close> and
  \<^verbatim>\<open>onResultUpdate("Error: " + reason)\<close>, appends the user-role error report
  "The code execution resulted in an error: ", the reason, a newline, "Code:", a newline and
  the failing code, and calls \<^verbatim>\<open>streamResponse\<close> on the conversation so extended. With no
  engine that call only reports "Engine not initialized". With an engine, the request carries
  the extended conversation; a stream that fails ends the turn with its error; a stream that
  finishes delivers its text and usage, and the loop runs again on the extracted code exactly
  when code is extracted from that text, and ends otherwise.
\<close>

theorem runAndExplainCode_recovers_from_failure:
  fixes env :: "'w env" and s :: "'w state"
  assumes exec: "executePython env code (world s) = (Inr r, w1)"
      and failure: "truthy (error r)"
  defines "reason \<equiv> the (error r)"
  defines "report \<equiv>
             \<lparr>role = User,
              content = ''The code execution resulted in an error: '' @ reason @
                        ''\<newline>Code:\<newline>'' @ code\<rparr>"
  defines "conversation \<equiv> messages s @ [report]"
  defines "signalled \<equiv> trace s @ [Execute code, ErrorUpdate True, ResultUpdate (''Error: '' @ reason)]"
  shows "(engine env = None \<longrightarrow>
           runAndExplainCode (Suc n) env code recorder s =
             Finished \<lparr>world = w1, messages = conversation,
                       trace = signalled @
                         [ErrorUpdate True, ResultUpdate ''Error: Engine not initialized'']\<rparr>)
    \<and> (engine env = Some create \<and> create conversation w1 = (c, w2) \<longrightarrow>
           runAndExplainCode (Suc n) env code recorder s =
             (let tr = signalled @ EngineCreate conversation #
                         map ResultUpdate (running [] (chunks c))
              in case stream_result c of
                   Inl e \<Rightarrow>
                     Finished \<lparr>world = w2, messages = conversation,
                               trace = tr @ [ErrorUpdate True, ResultUpdate (''Error: '' @ e)]\<rparr>
                 | Inr (m, u) \<Rightarrow>
                     (let s2 = \<lparr>world = w2, messages = conversation,
                                trace = tr @ [ResultUpdate m, UsageUpdate u]\<rparr>
                      in if truthy (extractCodeFromMarkdown env m)
                         then runAndExplainCode n env (the (extractCodeFromMarkdown env m)) recorder s2
                         else Finished s2)))"
proof (intro conjI impI)
  assume "engine env = None"
  then show "runAndExplainCode (Suc n) env code recorder s =
             Finished \<lparr>world = w1, messages = conversation,
                       trace = signalled @
                         [ErrorUpdate True, ResultUpdate ''Error: Engine not initialized'']\<rparr>"
    unfolding runAndExplainCode_failure [OF exec failure]
    by (simp add: handleCodeError_not_ready conversation_def report_def signalled_def reason_def
        errorMessage_def)
next
  assume "engine env = Some create \<and> create conversation w1 = (c, w2)"
  then have create: "engine env = Some create"
    and resp: "create (messages \<lparr>world = w1, messages = messages s,
              trace = trace s @ [Execute code, ErrorUpdate True,
                                 ResultUpdate (''Error: '' @ the (error r))]\<rparr> @
            [\<lparr>role = User, content = errorMessage (the (error r)) code\<rparr>])
          (world \<lparr>world = w1, messages = messages s,
              trace = trace s @ [Execute code, ErrorUpdate True,
                                 ResultUpdate (''Error: '' @ the (error r))]\<rparr>) = (c, w2)"
    by (simp_all add: conversation_def report_def reason_def errorMessage_def)
  show "runAndExplainCode (Suc n) env code recorder s =
             (let tr = signalled @ EngineCreate conversation #
                         map ResultUpdate (running [] (chunks c))
              in case stream_result c of
                   Inl e \<Rightarrow>
                     Finished \<lparr>world = w2, messages = conversation,
                               trace = tr @ [ErrorUpdate True, ResultUpdate (''Error: '' @ e)]\<rparr>
                 | Inr (m, u) \<Rightarrow>
                     (let s2 = \<lparr>world = w2, messages = conversation,
                                trace = tr @ [ResultUpdate m, UsageUpdate u]\<rparr>
                      in if truthy (extractCodeFromMarkdown env m)
                         then runAndExplainCode n env (the (extractCodeFromMarkdown env m)) recorder s2
                         else Finished s2))"
    unfolding runAndExplainCode_failure [OF exec failure]
      handleCodeError_ready [OF create resp]
    by (simp add: conversation_def report_def signalled_def reason_def errorMessage_def Let_def
        split: sum.split prod.split)
qed

theorem runAndExplainCode_recovers_from_failure_witness:
  "runAndExplainCode 1 failing_env ''print(5)'' recorder state0 =
     OutOfFuel
       \<lparr>world = 1,
        messages = messages state0 @
          [\<lparr>role = User,
            content = ''The code execution resulted in an error: NameError: name x is not defined\<newline>Code:\<newline>print(5)''\<rparr>],
        trace =
          [Execute ''print(5)'', ErrorUpdate True,
           ResultUpdate ''Error: NameError: name x is not defined'',
           EngineCreate (messages state0 @
             [\<lparr>role = User,
               content = ''The code execution resulted in an error: NameError: name x is not defined\<newline>Code:\<newline>print(5)''\<rparr>]),
           ResultUpdate python_fence, ResultUpdate python_fence,
           ResultUpdate python_fence, UsageUpdate usage0]\<rparr>"
proof -
  let ?r = "\<lparr>results = None, error = Some ''NameError: name x is not defined''\<rparr>"
  let ?conv = "messages state0 @
          [\<lparr>role = User,
            content = errorMessage ''NameError: name x is not defined'' ''print(5)''\<rparr>]"
  have exec: "executePython failing_env ''print(5)'' (world state0) = (Inr ?r, 0)"
    by (simp add: failing_env_simps state0_def)
  have fail: "truthy (error ?r)" by (simp add: truthy_def)
  have eng: "engine failing_env = Some stub_engine \<and>
             stub_engine (messages state0 @ [\<lparr>role = User, content = errorMessage (the (error ?r)) ''print(5)''\<rparr>]) 0
               = (fst (stub_engine ?conv 0), 1)"
    by (simp add: failing_env_simps stub_engine_def)
  have res: "stream_result (fst (stub_engine ?conv 0)) = Inr (python_fence, usage0)"
    by (rule stream_result_stub_engine)
  have run: "running [] (chunks (fst (stub_engine ?conv 0))) = [python_fence, python_fence]"
    by (simp add: stub_engine_def delta_text_def)
  have ext: "truthy (extractCodeFromMarkdown failing_env python_fence)"
    by (simp add: failing_env_simps stub_extract_def truthy_def)
  from runAndExplainCode_recovers_from_failure [OF exec fail, of 0 stub_engine "fst (stub_engine ?conv 0)" 1]
    eng
  show ?thesis
    unfolding res run by (simp add: ext state0_def errorMessage_def)
qed

text \<open>
  C10. When the sandbox returns a value with neither \<^verbatim>\<open>results\<close> nor \<^verbatim>\<open>error\<close> (an empty
  \<^verbatim>\<open>error\<close> string counts as none), \<^verbatim>\<open>runAndExplainCode\<close> ends at once: whatever the callbacks
  are, none is invoked, the conversation is unchanged, and the only event is the execution.
\<close>

theorem runAndExplainCode_neither_results_nor_error:
  assumes "executePython env code (world s) = (Inr r, w1)"
      and "error r = None \<or> error r = Some []"
      and "results r = None"
  shows "runAndExplainCode (Suc n) env code callbacks s =
           Finished \<lparr>world = w1, messages = messages s, trace = trace s @ [Execute code]\<rparr>"
proof -
  from assms(2) have "\<not> truthy (error r)" by (auto simp: truthy_def)
  with assms(1) show ?thesis using assms(3) by (rule runAndExplainCode_nothing)
qed

theorem runAndExplainCode_neither_results_nor_error_witness:
  "runAndExplainCode 1 empty_env ''print(5)'' recorder state0 =
     Finished \<lparr>world = 0, messages = messages state0, trace = [Execute ''print(5)'']\<rparr>"
  using runAndExplainCode_neither_results_nor_error
    [of empty_env "''print(5)''" state0 "\<lparr>results = None, error = None\<rparr>" 0 0 recorder]
  by (simp add: empty_env_def sandbox_env_simps state0_def)

text \<open>
  C2 as stated fails on its own example: for \<^verbatim>\<open>{stdout: "5\n", result: "10"}\<close> line 203 adds a
  newline after the standard output, so the output shown is "5\n\n10", not "5\n10".
\<close>

theorem success_output_not_exact_concatenation:
  "runAndExplainCode 1 succeeding_env ''print(5)'' recorder state0 =
     Finished
       \<lparr>world = 0,
        messages = messages state0 @
          [\<lparr>role = Assistant,
            content = ''The code executed successfully with the following output: 5\<newline>\<newline>10''\<rparr>],
        trace = [Execute ''print(5)'', CodeOutputUpdate (Some ''5\<newline>\<newline>10'')]\<rparr>
   \<and> ''5\<newline>\<newline>10'' \<noteq> ''5\<newline>10''"
proof -
  let ?res = "\<lparr>stdout = Some ''5\<newline>'', result = Some ''10''\<rparr>"
  have out: "compose_output ?res = ''5\<newline>\<newline>10''"
    by (simp add: compose_output_def shown_def)
  have trim: "trim ''5\<newline>\<newline>10'' = ''5\<newline>\<newline>10''"
    by (simp add: trim_def is_white_space_def)
  have "runAndExplainCode (Suc 0) succeeding_env ''print(5)'' recorder state0 =
     Finished
       \<lparr>world = 0,
        messages = messages state0 @
          [\<lparr>role = Assistant,
            content = ''The code executed successfully with the following output: 5\<newline>\<newline>10''\<rparr>],
        trace = [Execute ''print(5)'', CodeOutputUpdate (Some ''5\<newline>\<newline>10'')]\<rparr>"
    by (subst runAndExplainCode_success [where r = "\<lparr>results = Some ?res, error = None\<rparr>" and ?w1.0 = 0 and res = ?res])
       (simp_all add: succeeding_env_def sandbox_env_simps state0_def truthy_def out trim)
  then show ?thesis by simp
qed

text \<open>
  C2, amended. On a successful result the composed output is the standard output followed by
  a newline, then the value, where a field is left out exactly when it is \<^verbatim>\<open>null\<close>, empty or
  the text "null". The assistant-role summary appended to the conversation carries that
  output; \<^verbatim>\<open>onCodeOutputUpdate\<close> receives it trimmed, and is invoked exactly when at least one
  field is kept.
\<close>

theorem success_output_composition:
  fixes env :: "'w env" and s :: "'w state"
  assumes exec: "executePython env code (world s) = (Inr r, w1)"
      and no_error: "\<not> truthy (error r)"
      and res: "results r = Some res"
  defines "out \<equiv> (if shown (stdout res) then the (stdout res) @ ''\<newline>'' else []) @
                   (if shown (result res) then the (result res) else [])"
  shows "runAndExplainCode (Suc n) env code recorder s =
           Finished
             \<lparr>world = w1,
              messages = messages s @
                [\<lparr>role = Assistant,
                  content = ''The code executed successfully with the following output: '' @ out\<rparr>],
              trace = trace s @ Execute code #
                (if shown (stdout res) \<or> shown (result res)
                 then [CodeOutputUpdate (Some (trim out))] else [])\<rparr>
    \<and> (shown v \<longleftrightarrow> v \<noteq> None \<and> v \<noteq> Some [] \<and> v \<noteq> Some ''null'')"
proof -
  have out: "out = compose_output res"
    by (simp add: out_def compose_output_def)
  have empty: "compose_output res = [] \<longleftrightarrow> \<not> (shown (stdout res) \<or> shown (result res))"
    by (auto simp: compose_output_def shown_def split: option.splits)
  have "shown v \<longleftrightarrow> v \<noteq> None \<and> v \<noteq> Some [] \<and> v \<noteq> Some ''null''"
    by (cases v) (simp_all add: shown_def)
  then show ?thesis
    unfolding runAndExplainCode_success [OF exec no_error res] out
    using empty by simp
qed

theorem success_output_composition_witness:
  "runAndExplainCode 1 succeeding_env ''print(5)'' recorder state0 =
     Finished
       \<lparr>world = 0,
        messages = messages state0 @
          [\<lparr>role = Assistant,
            content = ''The code executed successfully with the following output: 5\<newline>\<newline>10''\<rparr>],
        trace = [Execute ''print(5)'', CodeOutputUpdate (Some ''5\<newline>\<newline>10'')]\<rparr>
   \<and> runAndExplainCode 1 silent_env ''print(5)'' recorder state0 =
     Finished
       \<lparr>world = 0,
        messages = messages state0 @
          [\<lparr>role = Assistant,
            content = ''The code executed successfully with the following output: ''\<rparr>],
        trace = [Execute ''print(5)'']\<rparr>"
proof -
  let ?res = "\<lparr>stdout = Some ''5\<newline>'', result = Some ''10''\<rparr>"
  let ?nul = "\<lparr>stdout = Some [], result = Some ''null''\<rparr>"
  have trim: "trim ''5\<newline>\<newline>10'' = ''5\<newline>\<newline>10''"
    by (simp add: trim_def is_white_space_def)
  have a: "executePython succeeding_env ''print(5)'' (world state0) =
             (Inr \<lparr>results = Some ?res, error = None\<rparr>, 0)"
    and b: "executePython silent_env ''print(5)'' (world state0) =
             (Inr \<lparr>results = Some ?nul, error = None\<rparr>, 0)"
    by (simp_all add: succeeding_env_def silent_env_def sandbox_env_simps state0_def)
  have t: "\<not> truthy (error \<lparr>results = Some ?res, error = None\<rparr>)"
          "\<not> truthy (error \<lparr>results = Some ?nul, error = None\<rparr>)"
    by (simp_all add: truthy_def)
  from success_output_composition [OF a t(1), of ?res 0 None]
  have 1: "runAndExplainCode 1 succeeding_env ''print(5)'' recorder state0 =
     Finished
       \<lparr>world = 0,
        messages = messages state0 @
          [\<lparr>role = Assistant,
            content = ''The code executed successfully with the following output: 5\<newline>\<newline>10''\<rparr>],
        trace = [Execute ''print(5)'', CodeOutputUpdate (Some ''5\<newline>\<newline>10'')]\<rparr>"
    by (simp add: shown_def trim state0_def)
  from success_output_composition [OF b t(2), of ?nul 0 None]
  have 2: "runAndExplainCode 1 silent_env ''print(5)'' recorder state0 =
     Finished
       \<lparr>world = 0,
        messages = messages state0 @
          [\<lparr>role = Assistant,
            content = ''The code executed successfully with the following output: ''\<rparr>],
        trace = [Execute ''print(5)'']\<rparr>"
    by (simp add: shown_def state0_def)
  from 1 2 show ?thesis ..
qed

lemma handleError_001_recorder:
  "handleError_001 e recorder pre s =
     \<lparr>world = world s, messages = messages s,
      trace = trace s @ [ErrorUpdate True,
                         ResultUpdate (if pre \<noteq> [] then pre @ '': '' @ e else e)]\<rparr>"
  by (cases s) (simp add: handleError_001_def emit_def)

subsection \<open>The explanation step\<close>

text \<open>
  In \<^verbatim>\<open>part_001\<close> a successful execution is followed by exactly one further \<^verbatim>\<open>streamResponse\<close>
  call: its conversation is the accumulated one plus an assistant message with the fenced code
  and the explanation request built from the result and the standard output, and its text goes
  to \<^verbatim>\<open>onExplanationUpdate\<close>.
\<close>

lemma runAndExplainCode_001_explains:
  fixes env :: "'w env" and s :: "'w state"
  defines "conversation \<equiv> \<lambda>code res kinds.
             messages s @
             [\<lparr>role = Assistant, content = ''```python\<newline>'' @ code @ ''\<newline>```''\<rparr>,
              \<lparr>role = User,
               content = EXPLANATION_PROMPT (js_string (absent_result kinds) (result res))
                           (js_string (absent_stdout kinds) (stdout res))\<rparr>]"
  assumes "executePython env code (world s) = (Inr r, w1)"
      and "\<not> truthy (error r)" and "results r = Some res"
      and "engine env = Some create"
      and "create (conversation code res kinds) w1 = (c, w2)"
  shows "runAndExplainCode_001 env code kinds recorder s =
           \<lparr>world = w2, messages = messages s,
            trace = trace s @
              [Execute code,
               CodeOutputUpdate
                 (Some (''Output:\<newline>'' @ js_string (absent_stdout kinds) (stdout res) @
                        ''\<newline>Result: '' @ js_string (absent_result kinds) (result res))),
               EngineCreate (conversation code res kinds)] @
              map (\<lambda>m. ExplanationUpdate (Some m)) (running [] (chunks c)) @
              (case stream_result c of
                 Inl e \<Rightarrow> [ErrorUpdate True, ResultUpdate (''Error generating explanation: '' @ e)]
               | Inr (m, u) \<Rightarrow> [ExplanationUpdate (Some m), UsageUpdate u])\<rparr>"
  using assms(2-)
  by (cases s)
     (simp add: runAndExplainCode_001_def generateExplanation_def run_sandbox_def
      conversation_def engine_on_Some streamResponse_Some foldl_emit
      handleError_001_recorder emit_def Let_def split: sum.split)

text \<open>
  In \<^verbatim>\<open>llm.ts\<close> no run, whatever the engine, the sandbox and the fuel, invokes
  \<^verbatim>\<open>onExplanationUpdate\<close>.
\<close>

lemma no_explanation_in_updates [simp]:
  "filter is_ExplanationUpdate (map ResultUpdate ms) = []"
  by (induction ms) simp_all

lemma runAndExplainCode_never_explains:
  "filter is_ExplanationUpdate (trace (state_of (runAndExplainCode n env code recorder s))) =
     filter is_ExplanationUpdate (trace s)"
proof (induction n arbitrary: code s)
  case 0
  show ?case by simp
next
  case (Suc n)
  obtain x w1 where exec: "executePython env code (world s) = (x, w1)"
    by (cases "executePython env code (world s)")
  show ?case
  proof (cases x)
    case (Inl e)
    show ?thesis
      unfolding runAndExplainCode_rejects [OF exec [unfolded Inl]] by simp
  next
    case (Inr r)
    note exec = exec [unfolded Inr]
    show ?thesis
    proof (cases "truthy (error r)")
      case False
      show ?thesis
      proof (cases "results r")
        case None
        show ?thesis
          unfolding runAndExplainCode_nothing [OF exec False None] by simp
      next
        case (Some res)
        show ?thesis
          unfolding runAndExplainCode_success [OF exec False Some] by simp
      qed
    next
      case True
      note run = runAndExplainCode_failure [OF exec True, of n]
      show ?thesis
      proof (cases "engine env")
        case None
        show ?thesis
          unfolding run handleCodeError_not_ready [OF None] by simp
      next
        case (Some create)
        let ?s1 = "\<lparr>world = w1, messages = messages s,
                    trace = trace s @ [Execute code, ErrorUpdate True,
                                       ResultUpdate (''Error: '' @ the (error r))]\<rparr>"
        let ?m = "\<lparr>role = User, content = errorMessage (the (error r)) code\<rparr>"
        obtain c w2 where resp: "create (messages ?s1 @ [?m]) (world ?s1) = (c, w2)"
          by (cases "create (messages ?s1 @ [?m]) (world ?s1)")
        show ?thesis
          unfolding run handleCodeError_ready [OF Some resp]
          by (simp add: Let_def Suc.IH split: sum.split prod.split)
      qed
    qed
  qed
qed

lemma handleUserInput_never_explains:
  "filter is_ExplanationUpdate (trace (state_of (handleUserInput fuel env input recorder w))) = []"
proof (cases "engine env")
  case None
  show ?thesis
    unfolding handleUserInput_not_ready [OF None] by simp
next
  case (Some create)
  obtain c w1 where resp: "create (initial_conversation input) w = (c, w1)"
    by (cases "create (initial_conversation input) w")
  show ?thesis
    unfolding handleUserInput_ready [OF Some resp]
    by (simp add: Let_def runAndExplainCode_never_explains split: sum.split prod.split)
qed

text \<open>
  C1 asks that a successful execution be followed by exactly one further \<^verbatim>\<open>streamResponse\<close>
  call, on the accumulated conversation plus the executed code and the explanation request,
  with its text delivered through \<^verbatim>\<open>onExplanationUpdate\<close>. In \<^verbatim>\<open>llm.ts\<close> a turn whose code
  runs successfully stops after the execution instead: the engine is asked once, for the
  answer; the output is shown and its summary appended to the conversation; no explanation is
  requested or delivered, although the comment above \<^verbatim>\<open>runAndExplainCode\<close> (lines 184-187)
  says that an explanation is generated.
\<close>

theorem handleUserInput_success_without_explanation:
  "handleUserInput 1 succeeding_env ''What is 5 + 5?'' recorder 0 =
     Finished
       \<lparr>world = 1,
        messages = initial_conversation ''What is 5 + 5?'' @
          [\<lparr>role = Assistant,
            content = ''The code executed successfully with the following output: 5\<newline>\<newline>10''\<rparr>],
        trace =
          [EngineCreate (initial_conversation ''What is 5 + 5?''),
           ResultUpdate python_fence, ResultUpdate python_fence,
           ResultUpdate python_fence, UsageUpdate usage0,
           Execute ''print(5)\<newline>5 + 5'',
           CodeOutputUpdate (Some ''5\<newline>\<newline>10'')]\<rparr>"
proof -
  let ?init = "initial_conversation ''What is 5 + 5?''"
  let ?res = "\<lparr>stdout = Some ''5\<newline>'', result = Some ''10''\<rparr>"
  let ?s2 = "\<lparr>world = 1, messages = ?init,
             trace = (EngineCreate ?init # map ResultUpdate [python_fence, python_fence]) @
                     [ResultUpdate python_fence, UsageUpdate usage0]\<rparr>"
  have eng: "engine succeeding_env = Some stub_engine"
    by (simp add: succeeding_env_def sandbox_env_simps)
  have resp: "stub_engine ?init 0 = (fst (stub_engine ?init 0), 1)"
    by (simp add: stub_engine_def)
  have res: "stream_result (fst (stub_engine ?init 0)) = Inr (python_fence, usage0)"
    by (rule stream_result_stub_engine)
  have run: "running [] (chunks (fst (stub_engine ?init 0))) = [python_fence, python_fence]"
    by (simp add: stub_engine_def delta_text_def)
  have ext: "extractCodeFromMarkdown succeeding_env python_fence = Some ''print(5)\<newline>5 + 5''"
    by (simp add: succeeding_env_def sandbox_env_simps stub_extract_def)
  have out: "compose_output ?res = ''5\<newline>\<newline>10''"
    by (simp add: compose_output_def shown_def)
  have trim: "trim ''5\<newline>\<newline>10'' = ''5\<newline>\<newline>10''"
    by (simp add: trim_def is_white_space_def)
  have exec: "executePython succeeding_env ''print(5)\<newline>5 + 5'' (world ?s2) =
                (Inr \<lparr>results = Some ?res, error = None\<rparr>, 1)"
    by (simp add: succeeding_env_def sandbox_env_simps)
  have loop: "runAndExplainCode (Suc 0) succeeding_env ''print(5)\<newline>5 + 5'' recorder ?s2 =
     Finished
       \<lparr>world = 1,
        messages = ?init @
          [\<lparr>role = Assistant,
            content = ''The code executed successfully with the following output: 5\<newline>\<newline>10''\<rparr>],
        trace =
          [EngineCreate ?init,
           ResultUpdate python_fence, ResultUpdate python_fence,
           ResultUpdate python_fence, UsageUpdate usage0,
           Execute ''print(5)\<newline>5 + 5'',
           CodeOutputUpdate (Some ''5\<newline>\<newline>10'')]\<rparr>"
    by (subst runAndExplainCode_success [OF exec, where res = ?res])
       (simp_all add: truthy_def out trim)
  show ?thesis
    unfolding handleUserInput_ready [OF eng resp] res run
    using loop by (simp add: ext truthy_def)
qed

subsection \<open>Fuel\<close>

text \<open>A run that has finished is not changed by more fuel.\<close>

lemma more_fuel:
  "runAndExplainCode n env code callbacks s = Finished s' \<Longrightarrow>
     runAndExplainCode (Suc n) env code callbacks s = Finished s'"
  "handleCodeError n env err code callbacks s = Finished s' \<Longrightarrow>
     handleCodeError (Suc n) env err code callbacks s = Finished s'"
proof (induction n env code callbacks s and n env err code callbacks s
       arbitrary: s' and s' rule: runAndExplainCode_handleCodeError.induct)
  case (1 env pythonCode callbacks s)
  then show ?case by simp
next
  case (2 n env pythonCode callbacks s)
  obtain x s1 where run: "run_sandbox env pythonCode s = (x, s1)"
    by (cases "run_sandbox env pythonCode s")
  show ?case
  proof (cases x)
    case (Inl e)
    with run "2.prems" show ?thesis
      by (simp add: runAndExplainCode.simps(2))
  next
    case (Inr r)
    show ?thesis
    proof (cases "truthy (error r)")
      case True
      with run Inr "2.prems"
      have "handleCodeError n env (the (error r)) pythonCode callbacks
              (handleError (the (error r)) callbacks s1) = Finished s'"
        by (simp add: runAndExplainCode.simps(2))
      from "2.IH" [OF run [symmetric] Inr True this] run Inr True show ?thesis
        by (simp add: runAndExplainCode.simps(2) [of "Suc n"])
    next
      case False
      with run Inr "2.prems" show ?thesis
        by (simp add: runAndExplainCode.simps(2))
    qed
  qed
next
  case (3 n env err pythonCode callbacks s)
  let ?s1 = "push \<lparr>role = User, content = errorMessage err pythonCode\<rparr> s"
  show ?case
  proof (cases "engine_on env")
    case None
    with "3.prems" show ?thesis
      by (simp add: handleCodeError.simps streamResponse_def)
  next
    case (Some create)
    obtain c s0 where resp: "create (messages ?s1) ?s1 = (c, s0)"
      by (cases "create (messages ?s1) ?s1")
    show ?thesis
    proof (cases "stream_result c")
      case (Inl e)
      with "3.prems" Some resp show ?thesis
        by (simp add: handleCodeError.simps streamResponse_Some Let_def)
    next
      case (Inr mu)
      obtain m u where mu: "mu = (m, u)" by (cases mu)
      let ?s3 = "onUsageUpdate callbacks u (onResultUpdate callbacks m
                  (foldl (\<lambda>s m. onResultUpdate callbacks m s) s0 (running [] (chunks c))))"
      show ?thesis
      proof (cases "truthy (extractCodeFromMarkdown env m)")
        case True
        with "3.prems" Some resp Inr mu
        have "runAndExplainCode n env (the (extractCodeFromMarkdown env m)) callbacks ?s3 = Finished s'"
          by (simp add: handleCodeError.simps streamResponse_Some Let_def)
        from "3.IH" [OF refl refl refl True this] Some resp Inr mu True show ?thesis
          by (simp add: handleCodeError.simps [of "Suc n"] streamResponse_Some Let_def)
      next
        case False
        with "3.prems" Some resp Inr mu show ?thesis
          by (simp add: handleCodeError.simps streamResponse_Some Let_def)
      qed
    qed
  qed
qed

end
